theory Spec2Isabelle
  imports Complex_Main "HOL-Library.Word"
begin

section \<open>Byte streams\<close>

text \<open>
  The parser of \<^verbatim>\<open>xbox360iso.py\<close> works on two kinds of seekable byte sources: the
  disc image opened with \<^verbatim>\<open>open(filename, "rb")\<close> and in-memory \<^verbatim>\<open>io.BytesIO\<close>
  buffers. Both are modelled by one record: the bytes, the current position, and a
  log of the reads performed so far. The log is a ghost field: the source has no
  such field, it records for each call of \<^verbatim>\<open>read\<close> the position it started at and
  the number of bytes it returned.
\<close>

type_synonym byte = "8 word"

record stream =
  content :: "byte list"
  pos :: nat
  reads :: "(nat \<times> nat) list"

text \<open>A freshly opened file, or a \<^verbatim>\<open>BytesIO()\<close> after \<^verbatim>\<open>write(bs); seek(0)\<close>.\<close>

definition open_stream :: "byte list \<Rightarrow> stream" where
  "open_stream bs = \<lparr>content = bs, pos = 0, reads = []\<rparr>"

text \<open>\<^verbatim>\<open>seek(n)\<close> with \<open>n \<ge> 0\<close>: any position is accepted, also one past the end.\<close>

definition seek :: "nat \<Rightarrow> stream \<Rightarrow> stream" where
  "seek n s = s\<lparr>pos := n\<rparr>"

text \<open>
  \<^verbatim>\<open>read(n)\<close>: the bytes from the current position, at most \<open>n\<close> of them and fewer
  (possibly none) at the end of the data; the position advances by what was returned.
\<close>

definition read :: "nat \<Rightarrow> stream \<Rightarrow> byte list \<times> stream" where
  "read n s =
     (let bs = take n (drop (pos s) (content s))
      in (bs, s\<lparr>pos := pos s + length bs, reads := reads s @ [(pos s, length bs)]\<rparr>))"

section \<open>Library functions used by the parser\<close>

text \<open>
  Every way the source can leave a stage without a value. The first eight are the
  places where the source returns \<^verbatim>\<open>False\<close> (seven of them after printing a
  message, which is what tells them apart); the last three are the exceptions that
  the library calls of the source raise.
\<close>

datatype error =
    UnsupportedLegacyFormat  \<comment> \<open>\<^verbatim>\<open>Original Xbox ISO format not supported\<close>\<close>
  | UnknownContainerFormat   \<comment> \<open>\<^verbatim>\<open>Unknown ISO format\<close>\<close>
  | EntryNotFound            \<comment> \<open>\<^verbatim>\<open>default.xex not found\<close>\<close>
  | BadMagic                 \<comment> \<open>\<^verbatim>\<open>XEX2 was not found at the start of default.xex\<close>\<close>
  | CodeOffsetBeyondSize     \<comment> \<open>\<^verbatim>\<open>Starting address of Xex code is beyond size of default.xex\<close>\<close>
  | CertOffsetInvalid        \<comment> \<open>\<^verbatim>\<open>Xex certificate offset is beyond the starting address of Xex code\<close>\<close>
  | HeaderTableOverflow      \<comment> \<open>\<^verbatim>\<open>Xex general info table has entries that spill over into the Xex code\<close>\<close>
  | ExecutionInfoNotFound    \<comment> \<open>the silent \<^verbatim>\<open>return False\<close> after the table scan\<close>
  | StructError              \<comment> \<open>\<^verbatim>\<open>struct.error\<close>: \<^verbatim>\<open>unpack\<close> on other than 4 bytes\<close>
  | NegativeSeek             \<comment> \<open>\<^verbatim>\<open>ValueError\<close>: \<^verbatim>\<open>BytesIO.seek\<close> to a negative position\<close>
  | OrdTypeError             \<comment> \<open>\<^verbatim>\<open>TypeError\<close>: \<^verbatim>\<open>ord\<close> on other than one byte\<close>

fun raised :: "error \<Rightarrow> bool" where
  "raised StructError = True"
| "raised NegativeSeek = True"
| "raised OrdTypeError = True"
| "raised _ = False"

text \<open>\<^verbatim>\<open>bytes.decode("ascii", "ignore")\<close>: bytes above 127 are dropped.\<close>

definition decode_ascii_ignore :: "byte list \<Rightarrow> string" where
  "decode_ascii_ignore bs = map (\<lambda>b. char_of (unat b)) (filter (\<lambda>b. unat b < 128) bs)"

text \<open>\<^verbatim>\<open>str.lower\<close> and \<^verbatim>\<open>str.upper\<close> on text that came out of an ASCII decoding.\<close>

definition lower_char :: "char \<Rightarrow> char" where
  "lower_char c = (let n = of_char c :: nat in if 65 \<le> n \<and> n \<le> 90 then char_of (n + 32) else c)"

definition lower :: "string \<Rightarrow> string" where
  "lower s = map lower_char s"

definition upper_char :: "char \<Rightarrow> char" where
  "upper_char c = (let n = of_char c :: nat in if 97 \<le> n \<and> n \<le> 122 then char_of (n - 32) else c)"

definition upper :: "string \<Rightarrow> string" where
  "upper s = map upper_char s"

text \<open>
  \<^verbatim>\<open>binascii.hexlify\<close>: two lowercase hexadecimal digits per byte, as ASCII codes,
  the high nibble first.
\<close>

definition hexdigit :: "nat \<Rightarrow> byte" where
  "hexdigit d = (if d < 10 then of_nat (48 + d) else of_nat (87 + d))"

definition hexlify :: "byte list \<Rightarrow> byte list" where
  "hexlify bs = concat (map (\<lambda>b. [hexdigit (unat b div 16), hexdigit (unat b mod 16)]) bs)"

text \<open>The value of a byte string read as an unsigned integer, least or most significant byte first.\<close>

fun le_nat :: "byte list \<Rightarrow> nat" where
  "le_nat [] = 0"
| "le_nat (b # bs) = unat b + 256 * le_nat bs"

definition be_nat :: "byte list \<Rightarrow> nat" where
  "be_nat bs = le_nat (rev bs)"

text \<open>
  \<^verbatim>\<open>unpack('I', b)[0]\<close>: native byte order and size, taken here as on the little-endian
  machines the tool is run on, where \<^verbatim>\<open>I\<close> is 4 bytes. \<^verbatim>\<open>unpack('>I', b)[0]\<close> is the
  big-endian reading. Both raise \<^verbatim>\<open>struct.error\<close> unless given exactly 4 bytes.
\<close>

definition unpack_I :: "byte list \<Rightarrow> error + nat" where
  "unpack_I b = (if length b = 4 then Inr (le_nat b) else Inl StructError)"

definition unpack_BE_I :: "byte list \<Rightarrow> error + nat" where
  "unpack_BE_I b = (if length b = 4 then Inr (be_nat b) else Inl StructError)"

text \<open>\<^verbatim>\<open>ord(b)\<close> on a bytes object: its single byte, \<^verbatim>\<open>TypeError\<close> for any other length.\<close>

definition ord :: "byte list \<Rightarrow> error + nat" where
  "ord b = (case b of [x] \<Rightarrow> Inr (unat x) | _ \<Rightarrow> Inl OrdTypeError)"

section \<open>Container detection: \<^verbatim>\<open>check_iso\<close>\<close>

definition GDF :: nat where "GDF = 0xfd90000"
definition XGD3 :: nat where "XGD3 = 0x2080000"
definition XSF :: nat where "XSF = 0"

definition MAGIC :: string where
  "MAGIC = ''MICROSOFT*XBOX*MEDIA''"

text \<open>
  The dictionary \<^verbatim>\<open>iso_info\<close> as \<^verbatim>\<open>check_iso\<close> returns it. \<^verbatim>\<open>volume_sectors\<close> is the
  true division \<^verbatim>\<open>volume_size / sector_size\<close>, a float in the source; it is kept
  here as the exact quotient, which the float equals for every volume below \<open>2^53\<close>
  bytes since the divisor is a power of two.
\<close>

record iso_info =
  sector_size :: nat
  root_offset :: nat
  iso_identifier :: string  \<comment> \<open>the key \<^verbatim>\<open>identifier\<close>\<close>
  root_dir_sector :: nat
  root_dir_size :: nat
  image_size :: nat
  volume_size :: int
  volume_sectors :: rat

text \<open>
  Lines 88 to 95: with \<^verbatim>\<open>root_offset\<close> chosen, read the identifier again and the two
  fields that follow it.
\<close>

definition read_layout :: "nat \<Rightarrow> stream \<Rightarrow> (error + iso_info) \<times> stream" where
  "read_layout base f0 =
     (let sector = 0x800;
          (idb, f1) = read 20 (seek (0x20 * sector + base) f0);
          (b1, f2) = read 4 f1
      in case unpack_I b1 of
           Inl e \<Rightarrow> (Inl e, f2)
         | Inr rds \<Rightarrow>
             (let (b2, f3) = read 4 f2
              in case unpack_I b2 of
                   Inl e \<Rightarrow> (Inl e, f3)
                 | Inr rsz \<Rightarrow>
                     (let isz = length (content f3);
                          vsz = int isz - int base
                      in (Inr \<lparr>sector_size = sector, root_offset = base,
                               iso_identifier = decode_ascii_ignore idb,
                               root_dir_sector = rds, root_dir_size = rsz,
                               image_size = isz, volume_size = vsz,
                               volume_sectors = of_int vsz / of_nat sector\<rparr>, f3))))"

definition check_iso :: "stream \<Rightarrow> (error + iso_info) \<times> stream" where
  "check_iso iso_file =
     (let sector = 0x800;
          (m0, f1) = read 20 (seek (0x20 * sector) iso_file)
      in if decode_ascii_ignore m0 = MAGIC then (Inl UnsupportedLegacyFormat, f1)
         else
           (let (m1, f2) = read 20 (seek (0x20 * sector + GDF) f1)
            in if decode_ascii_ignore m1 = MAGIC then read_layout GDF f2
               else
                 (let (m2, f3) = read 20 (seek (0x20 * sector + XGD3) f2)
                  in if decode_ascii_ignore m2 = MAGIC then read_layout XGD3 f3
                     else (Inl UnknownContainerFormat, f3))))"

section \<open>Directory scan and extraction: \<^verbatim>\<open>extract_defaultxex\<close>\<close>

text \<open>
  The loop \<^verbatim>\<open>for i in range(0, root_dir_size - 12)\<close> over the buffered root directory,
  up to the two \<^verbatim>\<open>unpack\<close> calls of a match (lines 104 to 111); \<open>k\<close> counts the
  positions still to visit. A match leaves the loop, and the function, at once.
  \<^verbatim>\<open>int.from_bytes\<close> of the one (or no) byte read is its big-endian value.
\<close>

fun scan_root :: "nat \<Rightarrow> nat \<Rightarrow> stream \<Rightarrow> (error + nat \<times> nat) \<times> stream" where
  "scan_root i 0 b = (Inl EntryNotFound, b)"
| "scan_root i (Suc k) b =
     (let (skipped, b1) = read 1 (seek i b);
          (len, b2) = read 1 b1
      in if be_nat len = 11 then
           (let (name, b3) = read 11 b2
            in if lower (decode_ascii_ignore name) = ''default.xex'' then
                 (if i < 8 then (Inl NegativeSeek, b3)
                  else
                    (let (s1, b4) = read 4 (seek (i - 8) b3)
                     in case unpack_I s1 of
                          Inl e \<Rightarrow> (Inl e, b4)
                        | Inr file_sector \<Rightarrow>
                            (let (s2, b5) = read 4 b4
                             in case unpack_I s2 of
                                  Inl e \<Rightarrow> (Inl e, b5)
                                | Inr file_size \<Rightarrow> (Inr (file_sector, file_size), b5))))
               else scan_root (Suc i) k b3)
         else scan_root (Suc i) k b2)"

text \<open>
  The whole function: buffer the root directory, scan it, and on a match read
  \<^verbatim>\<open>file_size\<close> bytes at the entry's sector into a new buffer (lines 113 to 117).
\<close>

definition extract_defaultxex :: "stream \<Rightarrow> iso_info \<Rightarrow> (error + stream) \<times> stream" where
  "extract_defaultxex iso_file info =
     (let (rb, f1) = read (root_dir_size info)
                       (seek (root_dir_sector info * sector_size info + root_offset info) iso_file);
          root_sector_buffer = open_stream rb
      in case fst (scan_root 0 (root_dir_size info - 12) root_sector_buffer) of
           Inl e \<Rightarrow> (Inl e, f1)
         | Inr (file_sector, file_size) \<Rightarrow>
             (let (xb, f2) = read file_size
                               (seek (root_offset info + file_sector * sector_size info) f1)
              in (Inr (open_stream xb), f2)))"

section \<open>Executable header: \<^verbatim>\<open>extract_xex_info\<close>\<close>

record xex_info =
  media_id :: string
  version :: nat
  base_version :: nat
  title_id :: string
  platform :: nat
  executable_type :: nat
  disc_number :: nat
  disc_count :: nat

text \<open>
  The loop over the header table (lines 148 to 154). \<open>addr\<close> is
  \<^verbatim>\<open>execution_info_address\<close>, \<open>None\<close> standing for its initial \<^verbatim>\<open>False\<close>. The
  identifier read is unpacked; the value is read in both branches and unpacked only
  under the wanted identifier.
\<close>

fun scan_table :: "nat \<Rightarrow> nat option \<Rightarrow> stream \<Rightarrow> (error + nat option) \<times> stream" where
  "scan_table 0 addr b = (Inr addr, b)"
| "scan_table (Suc k) addr b =
     (let (h, b1) = read 4 b
      in case unpack_BE_I h of
           Inl e \<Rightarrow> (Inl e, b1)
         | Inr header_id \<Rightarrow>
             if header_id = 0x00040006 then
               (let (v, b2) = read 4 b1
                in case unpack_BE_I v of
                     Inl e \<Rightarrow> (Inl e, b2)
                   | Inr a \<Rightarrow> scan_table k (Some a) b2)
             else
               (let (skipped, b2) = read 4 b1
                in scan_table k addr b2))"

text \<open>Lines 157 to 165: the eight fields of the execution info, read in order.\<close>

definition hex_id :: "byte list \<Rightarrow> string" where
  "hex_id bs = upper (decode_ascii_ignore (hexlify bs))"

definition decode_execution_info :: "nat \<Rightarrow> stream \<Rightarrow> (error + xex_info) \<times> stream" where
  "decode_execution_info a b =
     (let (m, b1) = read 4 (seek a b);
          (v, b2) = read 4 b1
      in case unpack_BE_I v of
           Inl e \<Rightarrow> (Inl e, b2)
         | Inr ver \<Rightarrow>
       (let (bv, b3) = read 4 b2
        in case unpack_BE_I bv of
             Inl e \<Rightarrow> (Inl e, b3)
           | Inr bver \<Rightarrow>
       (let (t, b4) = read 4 b3;
            (p, b5) = read 1 b4
        in case ord p of
             Inl e \<Rightarrow> (Inl e, b5)
           | Inr plat \<Rightarrow>
       (let (x, b6) = read 1 b5
        in case ord x of
             Inl e \<Rightarrow> (Inl e, b6)
           | Inr etype \<Rightarrow>
       (let (dn, b7) = read 1 b6
        in case ord dn of
             Inl e \<Rightarrow> (Inl e, b7)
           | Inr dnum \<Rightarrow>
       (let (dc, b8) = read 1 b7
        in case ord dc of
             Inl e \<Rightarrow> (Inl e, b8)
           | Inr dcnt \<Rightarrow>
               (Inr \<lparr>media_id = hex_id m, version = ver, base_version = bver,
                     title_id = hex_id t, platform = plat, executable_type = etype,
                     disc_number = dnum, disc_count = dcnt\<rparr>, b8)))))))"

text \<open>
  \<^verbatim>\<open>sys.getsizeof(xex_buffer)\<close> is the memory footprint of the \<^verbatim>\<open>BytesIO\<close> object, a
  number the interpreter decides; it is a parameter here, a function of the bytes
  the buffer holds.
\<close>

definition extract_xex_info :: "(byte list \<Rightarrow> nat) \<Rightarrow> stream \<Rightarrow> (error + xex_info) \<times> stream" where
  "extract_xex_info getsizeof xex_buffer =
     (let (m, b1) = read 4 (seek 0 xex_buffer)
      in if decode_ascii_ignore m = ''XEX2'' then
           (let (c, b2) = read 4 (seek 0x08 b1)
            in case unpack_BE_I c of
                 Inl e \<Rightarrow> (Inl e, b2)
               | Inr code_offset \<Rightarrow>
           if code_offset > getsizeof (content b2) then (Inl CodeOffsetBeyondSize, b2)
           else
           (let (ce, b3) = read 4 (seek 0x10 b2)
            in case unpack_BE_I ce of
                 Inl e \<Rightarrow> (Inl e, b3)
               | Inr cert_offset \<Rightarrow>
           if cert_offset > code_offset then (Inl CertOffsetInvalid, b3)
           else
           (let (n, b4) = read 4 (seek 0x14 b3)
            in case unpack_BE_I n of
                 Inl e \<Rightarrow> (Inl e, b4)
               | Inr info_table_num_entries \<Rightarrow>
           if info_table_num_entries * 8 + 24 > code_offset then (Inl HeaderTableOverflow, b4)
           else
             (case scan_table info_table_num_entries None b4 of
                (Inl e, b5) \<Rightarrow> (Inl e, b5)
              | (Inr None, b5) \<Rightarrow> (Inl ExecutionInfoNotFound, b5)
              | (Inr (Some execution_info_address), b5) \<Rightarrow>
                  decode_execution_info execution_info_address b5))))
         else (Inl BadMagic, b1))"

section \<open>The pipeline: \<^verbatim>\<open>parse\<close>\<close>

text \<open>
  The dictionary \<^verbatim>\<open>props\<close>: the keys of \<^verbatim>\<open>iso_info\<close> and of \<^verbatim>\<open>xex_info\<close> are disjoint,
  so the merged dictionary holds both unchanged, and \<^verbatim>\<open>game_name\<close>.
\<close>

record props =
  layout :: iso_info
  info :: xex_info
  game_name :: string

text \<open>
  The body of the \<^verbatim>\<open>try\<close> block: \<open>Inl\<close> is an exception on its way out, \<open>Inr None\<close>
  one of the three \<^verbatim>\<open>return None\<close>. The file argument is what
  \<^verbatim>\<open>open(filename, "rb")\<close> gives: the bytes of the file, or \<open>None\<close> when \<^verbatim>\<open>open\<close> raises.
\<close>

datatype exn = OpenFailed | Stage error

definition parse_body ::
  "(string \<rightharpoonup> string) \<Rightarrow> (byte list \<Rightarrow> nat) \<Rightarrow> byte list option \<Rightarrow> exn + props option" where
  "parse_body game_lookup getsizeof file =
     (case file of
        None \<Rightarrow> Inl OpenFailed
      | Some bytes \<Rightarrow>
          (case check_iso (open_stream bytes) of
             (Inl e, f1) \<Rightarrow> if raised e then Inl (Stage e) else Inr None
           | (Inr iso_info, f1) \<Rightarrow>
               (case extract_defaultxex f1 iso_info of
                  (Inl e, f2) \<Rightarrow> if raised e then Inl (Stage e) else Inr None
                | (Inr xex_buffer, f2) \<Rightarrow>
                    (case fst (extract_xex_info getsizeof xex_buffer) of
                       Inl e \<Rightarrow> if raised e then Inl (Stage e) else Inr None
                     | Inr xex_info \<Rightarrow>
                         Inr (Some \<lparr>layout = iso_info, info = xex_info,
                                    game_name = (case game_lookup (title_id xex_info) of
                                                   None \<Rightarrow> ''Unknown''
                                                 | Some name \<Rightarrow> name)\<rparr>)))))"

text \<open>
  The handler (lines 66 to 68). \<^verbatim>\<open>except Exception\<close> catches whatever the body raised;
  the handler prints \<^verbatim>\<open>Failed to parse {filename}: {e}\<close> and returns \<^verbatim>\<open>None\<close>.
  \<^verbatim>\<open>print\<close> encodes its text for standard output and raises \<^verbatim>\<open>UnicodeEncodeError\<close>
  when the text holds a character that the encoding of standard output lacks. The
  handler is not itself guarded, so this exception leaves \<^verbatim>\<open>parse\<close>. The fixed
  words of the text and the messages of the exceptions are ASCII, and a message that
  quotes the file name holds its characters or ASCII escapes of them: the text can be
  encoded exactly when the file name can. A file name is the list of its code points;
  which names standard output can encode is a parameter, like \<^verbatim>\<open>sys.getsizeof\<close>.
  The result of \<^verbatim>\<open>parse\<close> is \<open>Inl\<close> for an exception that leaves it, \<open>Inr None\<close> for
  \<^verbatim>\<open>None\<close>, and \<open>Inr (Some props)\<close> for the dictionary.
\<close>

type_synonym filename = "nat list"

datatype escaped = UnicodeEncodeError

definition parse ::
  "(string \<rightharpoonup> string) \<Rightarrow> (byte list \<Rightarrow> nat) \<Rightarrow> (filename \<Rightarrow> bool) \<Rightarrow>
   filename \<Rightarrow> byte list option \<Rightarrow> escaped + props option" where
  "parse game_lookup getsizeof stdout_encodes filename file =
     (case parse_body game_lookup getsizeof file of
        Inl e \<Rightarrow> if stdout_encodes filename then Inr None else Inl UnicodeEncodeError
      | Inr r \<Rightarrow> Inr r)"

section \<open>Notions of the specification\<close>

text \<open>The bytes of an ASCII string.\<close>

definition encode_ascii :: "string \<Rightarrow> byte list" where
  "encode_ascii s = map (\<lambda>c. of_nat (of_char c)) s"

text \<open>
  The region of 20 bytes at an offset matches the magic string: what the three
  probes of \<^verbatim>\<open>check_iso\<close> test, undecodable bytes ignored.
\<close>

definition region_matches :: "byte list \<Rightarrow> nat \<Rightarrow> bool" where
  "region_matches bytes off = (decode_ascii_ignore (take 20 (drop off bytes)) = MAGIC)"

text \<open>
  The fields of the executable header, as the specification places them: big-endian
  words at offsets 8, 16 and 20 of the buffer.
\<close>

definition u32be_at :: "byte list \<Rightarrow> nat \<Rightarrow> nat" where
  "u32be_at buf off = be_nat (take 4 (drop off buf))"

definition code_offset_of :: "byte list \<Rightarrow> nat" where
  "code_offset_of buf = u32be_at buf 0x08"

definition cert_offset_of :: "byte list \<Rightarrow> nat" where
  "cert_offset_of buf = u32be_at buf 0x10"

definition entry_count_of :: "byte list \<Rightarrow> nat" where
  "entry_count_of buf = u32be_at buf 0x14"

text \<open>
  The header table: \<open>n\<close> records of 8 bytes from offset \<open>p\<close> on, each a pair of
  big-endian words (identifier, value); the table of a buffer starts at offset 24 and
  has \<open>header_entry_count\<close> records.
\<close>

definition records_from :: "byte list \<Rightarrow> nat \<Rightarrow> nat \<Rightarrow> (nat \<times> nat) list" where
  "records_from buf p n = map (\<lambda>k. (u32be_at buf (p + 8 * k), u32be_at buf (p + 8 * k + 4))) [0..<n]"

definition table_records :: "byte list \<Rightarrow> (nat \<times> nat) list" where
  "table_records buf = records_from buf 24 (entry_count_of buf)"

text \<open>The reads that visit these records one after the other: two words per record.\<close>

definition record_reads :: "nat \<Rightarrow> nat \<Rightarrow> (nat \<times> nat) list" where
  "record_reads p n = concat (map (\<lambda>k. [(p + 8 * k, 4), (p + 8 * k + 4, 4)]) [0..<n])"

text \<open>The four reads of the header checks.\<close>

definition header_reads :: "(nat \<times> nat) list" where
  "header_reads = [(0, 4), (0x08, 4), (0x10, 4), (0x14, 4)]"

text \<open>
  A record is the execution info when its identifier is 0x00040006; the value of the
  last such record of a table, if there is one.
\<close>

definition is_execution_info :: "nat \<times> nat \<Rightarrow> bool" where
  "is_execution_info r = (fst r = 0x00040006)"

definition last_match :: "(nat \<times> nat) list \<Rightarrow> nat option" where
  "last_match recs =
     (case filter is_execution_info recs of [] \<Rightarrow> None | m # ms \<Rightarrow> Some (snd (last (m # ms))))"

text \<open>The address a scan holds after a list of records, having started with \<open>addr\<close>.\<close>

fun latest :: "nat option \<Rightarrow> (nat \<times> nat) list \<Rightarrow> nat option" where
  "latest addr [] = addr"
| "latest addr (r # rs) = latest (if is_execution_info r then Some (snd r) else addr) rs"

text \<open>
  A buffer passes header validation: it holds the 24 bytes of the header and none of
  the four checks of \<^verbatim>\<open>extract_xex_info\<close> refuses it.
\<close>

definition passes_validation :: "(byte list \<Rightarrow> nat) \<Rightarrow> byte list \<Rightarrow> bool" where
  "passes_validation getsizeof buf \<longleftrightarrow>
     decode_ascii_ignore (take 4 buf) = ''XEX2'' \<and> 24 \<le> length buf \<and>
     code_offset_of buf \<le> getsizeof buf \<and>
     cert_offset_of buf \<le> code_offset_of buf \<and>
     entry_count_of buf * 8 + 24 \<le> code_offset_of buf"

text \<open>
  The directory scan of the specification. A byte equals a byte of the target name up
  to letter case when it is ASCII and either the same byte or the upper-case letter
  of it; a name matches when it is 11 such bytes for \<^verbatim>\<open>default.xex\<close>; a position
  \<open>i\<close> of the region is a match when the byte after it is the name length 11 and the
  11 bytes that follow match the name. The two fields of the entry are the
  little-endian words 8 and 4 bytes before the position.
\<close>

definition ci_equal :: "byte \<Rightarrow> byte \<Rightarrow> bool" where
  "ci_equal b t \<longleftrightarrow>
     unat b < 128 \<and> (b = t \<or> (65 \<le> unat b \<and> unat b \<le> 90 \<and> unat b + 32 = unat t))"

definition name_matches :: "byte list \<Rightarrow> bool" where
  "name_matches bs = list_all2 ci_equal bs (encode_ascii ''default.xex'')"

definition entry_at :: "byte list \<Rightarrow> nat \<Rightarrow> bool" where
  "entry_at rb i \<longleftrightarrow>
     i + 1 < length rb \<and> rb ! (i + 1) = 11 \<and> name_matches (take 11 (drop (i + 2) rb))"

definition entry_fields :: "byte list \<Rightarrow> nat \<Rightarrow> nat \<times> nat" where
  "entry_fields rb i = (le_nat (take 4 (drop (i - 8) rb)), le_nat (take 4 (drop (i - 4) rb)))"

text \<open>
  The container layout of the specification for an image and a base offset: the
  identifier at sector 0x20 after the base offset, the two little-endian words after
  it, and the sizes derived from the length of the image.
\<close>

definition layout_at :: "byte list \<Rightarrow> nat \<Rightarrow> iso_info" where
  "layout_at c base =
     \<lparr>sector_size = 0x800, root_offset = base, iso_identifier = MAGIC,
      root_dir_sector = le_nat (take 4 (drop (base + 0x10014) c)),
      root_dir_size = le_nat (take 4 (drop (base + 0x10018) c)),
      image_size = length c, volume_size = int (length c) - int base,
      volume_sectors = of_int (int (length c) - int base) / 2048\<rparr>"

text \<open>Uppercase hexadecimal, two digits per byte, the first byte first.\<close>

definition HEX :: string where "HEX = ''0123456789ABCDEF''"

definition hex_upper :: "byte list \<Rightarrow> string" where
  "hex_upper bs = concat (map (\<lambda>b. [HEX ! (unat b div 16), HEX ! (unat b mod 16)]) bs)"

text \<open>
  A valid disc image, in the words of the specification. The container is found at a
  base offset: the legacy region does not match, and the magic string is at the GDF
  offset, or at the XGD3 offset and not at the GDF offset, with the two words of the
  root directory after it. The root directory is the region of \<open>root_dir_size\<close> bytes
  at sector \<open>root_dir_sector\<close>; its first matching position below
  \<open>root_dir_size - 12\<close> is \<open>i\<close>, with the two fields of the entry before it. The
  executable is the \<open>data_size\<close> bytes at sector \<open>data_sector\<close>. It passes header
  validation with its own length as its size, so that it extends at least to its code
  offset; the last record of its table with the identifier 0x00040006 has the value
  \<open>a\<close>, and the 20 bytes of the execution info at \<open>a\<close> are inside it.
\<close>

definition container_at :: "byte list \<Rightarrow> nat \<Rightarrow> bool" where
  "container_at img base \<longleftrightarrow>
     \<not> region_matches img 0x10000 \<and>
     (base = GDF \<and> region_matches img (0x10000 + GDF) \<or>
      base = XGD3 \<and> \<not> region_matches img (0x10000 + GDF) \<and> region_matches img (0x10000 + XGD3)) \<and>
     base + 0x1001C \<le> length img"

definition root_region :: "byte list \<Rightarrow> iso_info \<Rightarrow> byte list" where
  "root_region img lay =
     take (root_dir_size lay) (drop (root_dir_sector lay * sector_size lay + root_offset lay) img)"

definition first_entry :: "byte list \<Rightarrow> nat \<Rightarrow> nat option" where
  "first_entry rb dir_size = find (entry_at rb) [0..<dir_size - 12]"

definition entry_data :: "byte list \<Rightarrow> iso_info \<Rightarrow> nat \<times> nat \<Rightarrow> byte list" where
  "entry_data img lay e = take (snd e) (drop (root_offset lay + fst e * sector_size lay) img)"

definition valid_image :: "byte list \<Rightarrow> nat \<Rightarrow> nat \<Rightarrow> byte list \<Rightarrow> nat \<Rightarrow> bool" where
  "valid_image img base i xex a \<longleftrightarrow>
     container_at img base \<and>
     first_entry (root_region img (layout_at img base)) (root_dir_size (layout_at img base)) = Some i \<and>
     8 \<le> i \<and>
     xex = entry_data img (layout_at img base) (entry_fields (root_region img (layout_at img base)) i) \<and>
     passes_validation length xex \<and>
     last_match (table_records xex) = Some a \<and> a + 20 \<le> length xex"

text \<open>
  The execution info of the specification at an offset of a buffer: the media id and
  the title id in uppercase hexadecimal, the two versions as big-endian words, and
  the four single bytes.
\<close>

definition execution_info_at :: "byte list \<Rightarrow> nat \<Rightarrow> xex_info" where
  "execution_info_at buf a =
     \<lparr>media_id = hex_upper (take 4 (drop a buf)), version = u32be_at buf (a + 4),
      base_version = u32be_at buf (a + 8), title_id = hex_upper (take 4 (drop (a + 12) buf)),
      platform = unat (buf ! (a + 16)), executable_type = unat (buf ! (a + 17)),
      disc_number = unat (buf ! (a + 18)), disc_count = unat (buf ! (a + 19))\<rparr>"

section \<open>Concrete inputs\<close>

text \<open>\<^verbatim>\<open>struct.pack('>I', v)\<close> and \<^verbatim>\<open>struct.pack('<I', v)\<close>, to write test data.\<close>

definition be32 :: "nat \<Rightarrow> byte list" where
  "be32 v = [of_nat (v div 0x1000000), of_nat (v div 0x10000), of_nat (v div 0x100), of_nat v]"

definition le32 :: "nat \<Rightarrow> byte list" where
  "le32 v = rev (be32 v)"

text \<open>
  The 24 bytes of an executable header with the given code offset, certificate offset
  and number of table entries, and the 20 bytes of an execution info.
\<close>

definition xex_header :: "nat \<Rightarrow> nat \<Rightarrow> nat \<Rightarrow> byte list" where
  "xex_header code cert n = encode_ascii ''XEX2'' @ be32 0 @ be32 code @ be32 0 @ be32 cert @ be32 n"

definition execution_info_bytes ::
  "byte list \<Rightarrow> nat \<Rightarrow> nat \<Rightarrow> byte list \<Rightarrow> byte \<Rightarrow> byte \<Rightarrow> byte \<Rightarrow> byte \<Rightarrow> byte list" where
  "execution_info_bytes mid ver bver tid plat etype dnum dcnt =
     mid @ be32 ver @ be32 bver @ tid @ [plat, etype, dnum, dcnt]"

text \<open>
  What \<^verbatim>\<open>sys.getsizeof\<close> reports in CPython 3.11 on a 64-bit machine for a \<^verbatim>\<open>BytesIO\<close>
  filled by one \<^verbatim>\<open>write\<close>: 114 bytes more than the data, and 80 when nothing was
  written. The theorems hold for every such function; the concrete inputs use this one.
\<close>

definition getsizeof_cpython :: "byte list \<Rightarrow> nat" where
  "getsizeof_cpython bs = (if bs = [] then 80 else length bs + 114)"

text \<open>An image with the magic string at the legacy offset and at the XGD3 offset.\<close>

definition legacy_image :: "byte list" where
  "legacy_image =
     replicate 0x10000 0 @ encode_ascii MAGIC @ replicate 0x207FFEC 0 @ encode_ascii MAGIC"

text \<open>Headers for the header checks; the first starts with \<^verbatim>\<open>XEX1\<close>.\<close>

definition c3_both :: "byte list" where "c3_both = xex_header 0x10 0x20 1"

definition c3_guard :: "byte list" where "c3_guard = xex_header 0x1000 0x2000 0"

definition w3_magic :: "byte list" where "w3_magic = [0x58, 0x45, 0x58, 0x31] @ replicate 20 0"

definition w3_cert :: "byte list" where "w3_cert = xex_header 0x100 0x200 1 @ replicate 232 0"

definition w3_table :: "byte list" where "w3_table = xex_header 0x100 0x20 30 @ replicate 232 0"

text \<open>Buffers for the table scan.\<close>

definition c4_truncated :: "byte list" where "c4_truncated = xex_header 32 0 1"

definition w4_nomatch :: "byte list" where
  "w4_nomatch = xex_header 0x100 0x20 2 @ be32 1 @ be32 2 @ be32 3 @ be32 4 @ replicate 216 0"

text \<open>Two execution infos and buffers for the choice among matching records.\<close>

definition info_a :: "byte list" where
  "info_a = execution_info_bytes [0xAA, 0xBB, 0xCC, 0xDD] 0x01020304 0x05060708 [0x4D, 0x53, 0x07, 0xD1] 2 1 1 2"

definition info_b :: "byte list" where
  "info_b = execution_info_bytes [0x11, 0x22, 0x33, 0x44] 1 2 [0x55, 0x66, 0x77, 0x88] 9 8 7 6"

definition w9_two_matches :: "byte list" where
  "w9_two_matches =
     xex_header 0x100 0x20 3 @ be32 0x00040006 @ be32 0x60 @ be32 0x00040006 @ be32 0x40 @
     be32 0x00030000 @ be32 0x80 @ replicate 16 0 @ info_a @ replicate 12 0 @ info_b @
     replicate 140 0"

definition c9_truncated :: "byte list" where
  "c9_truncated =
     xex_header 48 0 3 @ be32 0x00040006 @ be32 0x28 @ be32 0x00040006 @ be32 0x28"

definition c10_overridden :: "byte list" where
  "c10_overridden =
     xex_header 0x100 0x20 2 @ be32 0x00040006 @ be32 0 @ be32 0x00040006 @ be32 0x40 @
     replicate 24 0 @ info_a @ replicate 172 0"

definition w10_zero :: "byte list" where
  "w10_zero = xex_header 0x100 0x20 1 @ be32 0x00040006 @ be32 0 @ replicate 224 0"

text \<open>Directory regions: an entry in mixed case at position 12, and a match at position 0.\<close>

definition w6_region :: "byte list" where
  "w6_region = [0, 0, 0, 0] @ le32 0x22 @ le32 0x100 @ [0x80, 0x0B] @
     encode_ascii ''DeFaUlT.XeX'' @ replicate 7 0"

definition c6_early :: "byte list" where
  "c6_early = [0, 0x0B] @ encode_ascii ''default.xex'' @ replicate 12 0"

text \<open>
  A disc image built from its parts: zeros up to sector 0x20 after the base offset,
  the identifier with the root directory at sector 0x21 and of size 0x800, the root
  directory with the single entry \<^verbatim>\<open>default.xex\<close> at sector 0x22 and of the given
  size, and the data of the file. Two such images without data, and an image cut
  right after the identifier.
\<close>

definition dir_entry :: "nat \<Rightarrow> nat \<Rightarrow> byte list" where
  "dir_entry file_sector file_size =
     [0, 0, 0, 0] @ le32 file_sector @ le32 file_size @ [0x80, 0x0B] @ encode_ascii ''default.xex''"

definition mk_iso :: "nat \<Rightarrow> nat \<Rightarrow> byte list \<Rightarrow> byte list" where
  "mk_iso base file_size data =
     replicate (base + 0x10000) 0 @ encode_ascii MAGIC @ le32 0x21 @ le32 0x800 @
     replicate 0x7E4 0 @ dir_entry 0x22 file_size @ replicate 0x7E7 0 @ data"

definition w2_gdf :: "byte list" where "w2_gdf = mk_iso GDF 0x100 []"

definition w2_xgd3 :: "byte list" where "w2_xgd3 = mk_iso XGD3 0x100 []"

definition c2_truncated :: "byte list" where
  "c2_truncated = replicate (XGD3 + 0x10000) 0 @ encode_ascii MAGIC"

text \<open>
  An executable built from the eight fields of its execution info: the header of the
  specification's scenario (code offset 0x100, certificate offset 0x20, one table
  entry (0x00040006, 0x40)), the execution info at 0x40, zeros up to 0x100. The same
  bytes cut after the execution info, a lookup table, an image around the executable
  with three table records, and two images whose file data is longer and shorter than
  the size their directory entry gives.
\<close>

definition mk_xex ::
  "byte list \<Rightarrow> nat \<Rightarrow> nat \<Rightarrow> byte list \<Rightarrow> byte \<Rightarrow> byte \<Rightarrow> byte \<Rightarrow> byte \<Rightarrow> byte list" where
  "mk_xex mid ver bver tid plat etype dnum dcnt =
     xex_header 0x100 0x20 1 @ be32 0x00040006 @ be32 0x40 @ replicate 32 0 @
     execution_info_bytes mid ver bver tid plat etype dnum dcnt @ replicate 172 0"

definition c5_minimal :: "byte list" where
  "c5_minimal = xex_header 0x100 0x20 1 @ be32 0x00040006 @ be32 0x40 @ replicate 32 0 @ info_a"

definition w5_lookup :: "string \<rightharpoonup> string" where
  "w5_lookup = [''4D5307D1'' \<mapsto> ''Halo 3'']"

definition w5_xex :: "byte list" where
  "w5_xex = mk_xex [0xAA, 0xBB, 0xCC, 0xDD] 0x01020304 0x05060708 [0x4D, 0x53, 0x07, 0xD1] 2 1 1 2"

definition w5_multi :: "byte list" where
  "w5_multi = mk_iso GDF 0x100 w9_two_matches"



text \<open>
  A standard output that encodes ASCII only (as under \<^verbatim>\<open>PYTHONIOENCODING=ascii\<close>), a
  file name of eight characters whose fourth is the letter e with an acute accent
  (code point 233), and the file name \<^verbatim>\<open>game.iso\<close>.
\<close>

definition ascii_stdout :: "filename \<Rightarrow> bool" where
  "ascii_stdout name = list_all (\<lambda>c. c < 128) name"


definition w8_name :: filename where
  "w8_name = [103, 97, 109, 101, 46, 105, 115, 111]"

section \<open>Facts about the library functions\<close>

lemma filter_full:
  assumes "length xs \<le> length (filter P xs)"
  shows "filter P xs = xs"
proof -
  have "length (filter P xs) + length (filter (\<lambda>x. \<not> P x) xs) = length xs"
    by (rule sum_length_filter_compl)
  with assms have "length (filter (\<lambda>x. \<not> P x) xs) = 0" by linarith
  then have "filter (\<lambda>x. \<not> P x) xs = []" by simp
  then have "\<forall>x\<in>set xs. P x" by (simp add: filter_empty_conv)
  then show ?thesis by simp
qed

lemma unat_byte_less: "unat (b::byte) < 256"
  using unsigned_less [of b, where 'a = nat] by simp

lemma byte_of_char_of: "(of_nat (of_char (char_of (unat (b::byte)) :: char) :: nat) :: byte) = b"
  by (simp add: of_char_of unat_byte_less)

text \<open>
  A decoding as long as the bytes read dropped nothing: the bytes are the ASCII
  codes of the text.
\<close>

lemma decode_eq_imp_bytes:
  assumes "decode_ascii_ignore bs = s" and "length bs \<le> length s"
  shows "bs = encode_ascii s"
proof -
  let ?P = "\<lambda>b. unat b < 128"
  have len: "length (filter ?P bs) = length s"
    using assms(1) by (auto simp: decode_ascii_ignore_def)
  with assms(2) have full: "filter ?P bs = bs" by (simp add: filter_full)
  with assms(1) have "map (\<lambda>b. char_of (unat b)) bs = s"
    by (simp add: decode_ascii_ignore_def)
  then have "encode_ascii s = map (\<lambda>b. of_nat (of_char (char_of (unat b) :: char))) bs"
    by (auto simp: encode_ascii_def comp_def)
  then show ?thesis by (simp only: byte_of_char_of) simp
qed

lemma encode_MAGIC:
  "encode_ascii MAGIC =
     [77, 73, 67, 82, 79, 83, 79, 70, 84, 42, 88, 66, 79, 88, 42, 77, 69, 68, 73, 65]"
  by (simp add: encode_ascii_def MAGIC_def)

lemma decode_encode_MAGIC: "decode_ascii_ignore (encode_ascii MAGIC) = MAGIC"
  by (simp add: encode_MAGIC) (simp add: decode_ascii_ignore_def MAGIC_def char_of_eq_iff)

lemma region_matches_iff:
  "region_matches bytes off \<longleftrightarrow> take 20 (drop off bytes) = encode_ascii MAGIC"
proof
  assume "region_matches bytes off"
  then have "decode_ascii_ignore (take 20 (drop off bytes)) = MAGIC"
    by (simp add: region_matches_def)
  moreover have "length (take 20 (drop off bytes)) \<le> length MAGIC"
    by (simp add: MAGIC_def)
  ultimately show "take 20 (drop off bytes) = encode_ascii MAGIC"
    by (rule decode_eq_imp_bytes)
next
  assume "take 20 (drop off bytes) = encode_ascii MAGIC"
  then show "region_matches bytes off"
    by (simp add: region_matches_def decode_encode_MAGIC)
qed

lemma region_matches_length:
  "region_matches bytes off \<Longrightarrow> length (take 20 (drop off bytes)) = 20"
  by (simp only: region_matches_iff encode_MAGIC) simp

section \<open>Container detection\<close>

text \<open>
  Claim C1. When the 20 bytes at the legacy offset (sector 0x20, base offset 0) match
  the magic string, \<^verbatim>\<open>check_iso\<close> returns \<^verbatim>\<open>False\<close> with the message of the
  unsupported original format, whatever the rest of the image holds. It has then
  performed one read only, the 20 bytes at offset 0x10000: neither the GDF nor the
  XGD3 offset is probed.
\<close>

theorem check_iso_legacy:
  assumes "region_matches (content f) 0x10000"
  shows "check_iso f =
    (Inl UnsupportedLegacyFormat, f\<lparr>pos := 0x10014, reads := reads f @ [(0x10000, 20)]\<rparr>)"
proof -
  have m: "decode_ascii_ignore (take 20 (drop 0x10000 (content f))) = MAGIC"
    using assms by (simp add: region_matches_def)
  have l: "length (take 20 (drop 0x10000 (content f))) = 20"
    using assms by (rule region_matches_length)
  show ?thesis
    unfolding check_iso_def using m l by (simp add: read_def seek_def Let_def)
qed

theorem check_iso_legacy_witness:
  "region_matches legacy_image 0x10000 \<and> region_matches legacy_image (0x10000 + XGD3) \<and>
   check_iso (open_stream legacy_image) =
     (Inl UnsupportedLegacyFormat,
      \<lparr>content = legacy_image, pos = 0x10014, reads = [(0x10000, 20)]\<rparr>)"
proof -
  have a: "region_matches legacy_image 0x10000"
    by (simp add: region_matches_iff legacy_image_def encode_MAGIC)
  have b: "region_matches legacy_image (0x10000 + XGD3)"
    by (simp add: region_matches_iff legacy_image_def encode_MAGIC XGD3_def)
  have c: "region_matches (content (open_stream legacy_image)) 0x10000"
    using a by (simp add: open_stream_def)
  show ?thesis
    using a b check_iso_legacy [OF c] by (simp add: open_stream_def)
qed

lemma read_within:
  assumes "p + n \<le> length buf"
  shows "read n \<lparr>content = buf, pos = p, reads = r\<rparr> =
    (take n (drop p buf), \<lparr>content = buf, pos = p + n, reads = r @ [(p, n)]\<rparr>)"
  using assms by (simp add: read_def Let_def)

lemma read_general:
  "read n \<lparr>content = buf, pos = p, reads = r\<rparr> =
    (take n (drop p buf),
     \<lparr>content = buf, pos = p + min (length buf - p) n, reads = r @ [(p, min (length buf - p) n)]\<rparr>)"
  by (simp add: read_def Let_def)

lemma seek_rec: "seek n \<lparr>content = buf, pos = p, reads = r\<rparr> = \<lparr>content = buf, pos = n, reads = r\<rparr>"
  by (simp add: seek_def)

lemma unpack_BE_I_at:
  "p + 4 \<le> length buf \<Longrightarrow> unpack_BE_I (take 4 (drop p buf)) = Inr (u32be_at buf p)"
  by (simp add: unpack_BE_I_def u32be_at_def)

lemma records_from_Suc:
  "records_from buf p (Suc k) =
     (u32be_at buf p, u32be_at buf (p + 4)) # records_from buf (p + 8) k"
proof -
  have "[0..<Suc k] = 0 # map Suc [0..<k]"
    by (simp add: upt_conv_Cons map_Suc_upt del: upt_Suc)
  then show ?thesis
    by (simp add: records_from_def comp_def add.assoc del: upt_Suc)
qed

lemma record_reads_Suc:
  "record_reads p (Suc k) = (p, 4) # (p + 4, 4) # record_reads (p + 8) k"
proof -
  have "[0..<Suc k] = 0 # map Suc [0..<k]"
    by (simp add: upt_conv_Cons map_Suc_upt del: upt_Suc)
  then show ?thesis
    by (simp add: record_reads_def comp_def add.assoc del: upt_Suc)
qed

lemma scan_table_within:
  assumes "p + 8 * k \<le> length buf"
  shows "scan_table k addr \<lparr>content = buf, pos = p, reads = r\<rparr> =
    (Inr (latest addr (records_from buf p k)),
     \<lparr>content = buf, pos = p + 8 * k, reads = r @ record_reads p k\<rparr>)"
  using assms
proof (induction k arbitrary: p addr r)
  case 0
  then show ?case by (simp add: records_from_def record_reads_def)
next
  case (Suc k)
  have a: "p + 4 \<le> length buf" and b: "(p + 4) + 4 \<le> length buf"
    and c: "(p + 8) + 8 * k \<le> length buf"
    using Suc.prems by simp_all
  have r1: "read 4 \<lparr>content = buf, pos = p, reads = r\<rparr> =
      (take 4 (drop p buf), \<lparr>content = buf, pos = p + 4, reads = r @ [(p, 4)]\<rparr>)"
    using a by (rule read_within)
  have r2: "read 4 \<lparr>content = buf, pos = p + 4, reads = r @ [(p, 4)]\<rparr> =
      (take 4 (drop (p + 4) buf), \<lparr>content = buf, pos = p + 8, reads = r @ [(p, 4), (p + 4, 4)]\<rparr>)"
    using read_within [OF b, of "r @ [(p, 4)]"] by (simp add: add.assoc)
  have u1: "unpack_BE_I (take 4 (drop p buf)) = Inr (u32be_at buf p)"
    using a by (rule unpack_BE_I_at)
  have u2: "unpack_BE_I (take 4 (drop (p + 4) buf)) = Inr (u32be_at buf (p + 4))"
    using b by (rule unpack_BE_I_at)
  note ih = Suc.IH [OF c]
  show ?case
    by (simp add: r1 r2 u1 u2 ih records_from_Suc record_reads_Suc
        is_execution_info_def add.assoc)
qed

lemma latest_append:
  "latest addr (xs @ [r]) = (if is_execution_info r then Some (snd r) else latest addr xs)"
  by (induction xs arbitrary: addr) simp_all

lemma latest_last_match:
  "latest addr recs = (case last_match recs of None \<Rightarrow> addr | Some a \<Rightarrow> Some a)"
proof (induction recs rule: rev_induct)
  case Nil
  then show ?case by (simp add: last_match_def)
next
  case (snoc r recs)
  then show ?case
    by (auto simp: latest_append last_match_def split: list.splits)
qed

lemma latest_None: "latest None recs = last_match recs"
  by (simp add: latest_last_match split: option.splits)

lemma take1_drop: "k < length buf \<Longrightarrow> take (Suc 0) (drop k buf) = [buf ! k]"
  by (simp add: take_Suc_conv_app_nth)

lemma ord_at: "k < length buf \<Longrightarrow> ord (take (Suc 0) (drop k buf)) = Inr (unat (buf ! k))"
  by (simp add: take1_drop ord_def)

lemma decode_execution_info_within:
  assumes "a + 20 \<le> length buf"
  shows "decode_execution_info a \<lparr>content = buf, pos = p, reads = r\<rparr> =
    (Inr \<lparr>media_id = hex_id (take 4 (drop a buf)), version = u32be_at buf (a + 4),
          base_version = u32be_at buf (a + 8), title_id = hex_id (take 4 (drop (a + 12) buf)),
          platform = unat (buf ! (a + 16)), executable_type = unat (buf ! (a + 17)),
          disc_number = unat (buf ! (a + 18)), disc_count = unat (buf ! (a + 19))\<rparr>,
     \<lparr>content = buf, pos = a + 20,
      reads = r @ [(a, 4), (a + 4, 4), (a + 8, 4), (a + 12, 4),
                   (a + 16, 1), (a + 17, 1), (a + 18, 1), (a + 19, 1)]\<rparr>)"
  unfolding decode_execution_info_def using assms
  by (simp add: seek_rec read_within unpack_BE_I_at ord_at) (simp add: add.commute)

lemma decode_execution_info_error:
  "fst (decode_execution_info a b) = Inl e \<Longrightarrow> e = StructError \<or> e = OrdTypeError"
  unfolding decode_execution_info_def
  by (auto simp: Let_def unpack_BE_I_def ord_def split: prod.splits sum.splits if_splits list.splits)

text \<open>The header checks, for a buffer that holds the 24 bytes of the header.\<close>

lemma extract_xex_info_header:
  assumes "24 \<le> length buf"
  shows "extract_xex_info g (open_stream buf) =
    (if decode_ascii_ignore (take 4 buf) \<noteq> ''XEX2'' then
       (Inl BadMagic, \<lparr>content = buf, pos = 4, reads = [(0, 4)]\<rparr>)
     else if code_offset_of buf > g buf then
       (Inl CodeOffsetBeyondSize, \<lparr>content = buf, pos = 12, reads = [(0, 4), (8, 4)]\<rparr>)
     else if cert_offset_of buf > code_offset_of buf then
       (Inl CertOffsetInvalid, \<lparr>content = buf, pos = 20, reads = [(0, 4), (8, 4), (16, 4)]\<rparr>)
     else if entry_count_of buf * 8 + 24 > code_offset_of buf then
       (Inl HeaderTableOverflow, \<lparr>content = buf, pos = 24, reads = header_reads\<rparr>)
     else
       (case scan_table (entry_count_of buf) None \<lparr>content = buf, pos = 24, reads = header_reads\<rparr> of
          (Inl e, b) \<Rightarrow> (Inl e, b)
        | (Inr None, b) \<Rightarrow> (Inl ExecutionInfoNotFound, b)
        | (Inr (Some a), b) \<Rightarrow> decode_execution_info a b))"
proof -
  have u: "unpack_BE_I (take 4 (drop 8 buf)) = Inr (code_offset_of buf)"
    "unpack_BE_I (take 4 (drop 16 buf)) = Inr (cert_offset_of buf)"
    "unpack_BE_I (take 4 (drop 20 buf)) = Inr (entry_count_of buf)"
    using assms by (simp_all add: unpack_BE_I_at code_offset_of_def cert_offset_of_def entry_count_of_def)
  have m: "min (length buf) 4 = 4" "min (length buf - 8) 4 = 4"
    "min (length buf - 16) 4 = 4" "min (length buf - 20) 4 = 4"
    using assms by simp_all
  show ?thesis
    unfolding extract_xex_info_def open_stream_def
    by (simp add: seek_rec read_general m u header_reads_def)
qed

lemma encode_XEX2: "encode_ascii ''XEX2'' = [0x58, 0x45, 0x58, 0x32]"
  by (simp add: encode_ascii_def)

lemma decode_XEX2: "decode_ascii_ignore [0x58, 0x45, 0x58, 0x32] = ''XEX2''"
  by (simp add: decode_ascii_ignore_def char_of_eq_iff)

lemma extract_xex_info_short_header:
  assumes "20 \<le> length buf"
  shows "extract_xex_info g (open_stream buf) =
    (if decode_ascii_ignore (take 4 buf) \<noteq> ''XEX2'' then
       (Inl BadMagic, \<lparr>content = buf, pos = 4, reads = [(0, 4)]\<rparr>)
     else if code_offset_of buf > g buf then
       (Inl CodeOffsetBeyondSize, \<lparr>content = buf, pos = 12, reads = [(0, 4), (8, 4)]\<rparr>)
     else if cert_offset_of buf > code_offset_of buf then
       (Inl CertOffsetInvalid, \<lparr>content = buf, pos = 20, reads = [(0, 4), (8, 4), (16, 4)]\<rparr>)
     else extract_xex_info g (open_stream buf))"
proof -
  have u: "unpack_BE_I (take 4 (drop 8 buf)) = Inr (code_offset_of buf)"
    "unpack_BE_I (take 4 (drop 16 buf)) = Inr (cert_offset_of buf)"
    using assms by (simp_all add: unpack_BE_I_at code_offset_of_def cert_offset_of_def)
  have m: "min (length buf) 4 = 4" "min (length buf - 8) 4 = 4" "min (length buf - 16) 4 = 4"
    using assms by simp_all
  have "decode_ascii_ignore (take 4 buf) \<noteq> ''XEX2'' \<Longrightarrow> ?thesis"
    unfolding extract_xex_info_def open_stream_def
    by (simp add: seek_rec read_general m)
  moreover have "decode_ascii_ignore (take 4 buf) = ''XEX2'' \<Longrightarrow> code_offset_of buf > g buf \<Longrightarrow> ?thesis"
    unfolding extract_xex_info_def open_stream_def
    by (simp add: seek_rec read_general m u)
  moreover have "decode_ascii_ignore (take 4 buf) = ''XEX2'' \<Longrightarrow> \<not> code_offset_of buf > g buf \<Longrightarrow>
      cert_offset_of buf > code_offset_of buf \<Longrightarrow> ?thesis"
    unfolding extract_xex_info_def open_stream_def
    by (simp add: seek_rec read_general m u)
  ultimately show ?thesis by (cases "decode_ascii_ignore (take 4 buf) = ''XEX2''") auto
qed

text \<open>After the header checks: the table scan decides.\<close>

lemma extract_xex_info_valid:
  assumes "passes_validation g buf" and "24 + 8 * entry_count_of buf \<le> length buf"
  shows "extract_xex_info g (open_stream buf) =
    (case last_match (table_records buf) of
       None \<Rightarrow> (Inl ExecutionInfoNotFound,
                \<lparr>content = buf, pos = 24 + 8 * entry_count_of buf,
                 reads = header_reads @ record_reads 24 (entry_count_of buf)\<rparr>)
     | Some a \<Rightarrow> decode_execution_info a
                \<lparr>content = buf, pos = 24 + 8 * entry_count_of buf,
                 reads = header_reads @ record_reads 24 (entry_count_of buf)\<rparr>)"
proof -
  have l: "24 \<le> length buf" using assms(1) by (simp add: passes_validation_def)
  have v: "decode_ascii_ignore (take 4 buf) = ''XEX2''" "\<not> code_offset_of buf > g buf"
    "\<not> cert_offset_of buf > code_offset_of buf"
    "\<not> entry_count_of buf * 8 + 24 > code_offset_of buf"
    using assms(1) by (simp_all add: passes_validation_def)
  show ?thesis
    by (simp add: extract_xex_info_header [OF l] v scan_table_within [OF assms(2)]
        latest_None table_records_def split: option.splits)
qed

lemma read_reads: "read k s = (bs, s') \<Longrightarrow> length (reads s') = Suc (length (reads s))"
  by (auto simp: read_def Let_def)

lemma scan_table_reads_bound:
  "length (reads (snd (scan_table n addr b))) \<le> length (reads b) + 2 * n"
proof (induction n arbitrary: addr b)
  case 0
  then show ?case by simp
next
  case (Suc n)
  obtain h b1 where r1: "read 4 b = (h, b1)" by (cases "read 4 b")
  obtain v b2 where r2: "read 4 b1 = (v, b2)" by (cases "read 4 b1")
  have l1: "length (reads b1) = Suc (length (reads b))" using r1 by (rule read_reads)
  have l2: "length (reads b2) = Suc (Suc (length (reads b)))"
    using read_reads [OF r2] l1 by simp
  show ?case
  proof (cases "unpack_BE_I h")
    case (Inl e)
    then show ?thesis using r1 l1 by simp
  next
    case hid: (Inr header_id)
    show ?thesis
    proof (cases "header_id = 0x00040006")
      case False
      then show ?thesis using r1 r2 hid l2 Suc.IH [of addr b2] by simp
    next
      case True
      show ?thesis
      proof (cases "unpack_BE_I v")
        case (Inl e)
        then show ?thesis using r1 r2 hid True l2 by simp
      next
        case (Inr a)
        then show ?thesis using r1 r2 hid True l2 Suc.IH [of "Some a" b2] by simp
      qed
    qed
  qed
qed

section \<open>Header validation\<close>

lemma extract_xex_info_bad_magic:
  assumes "decode_ascii_ignore (take 4 buf) \<noteq> ''XEX2''"
  shows "extract_xex_info g (open_stream buf) =
    (Inl BadMagic, \<lparr>content = buf, pos = min (length buf) 4, reads = [(0, min (length buf) 4)]\<rparr>)"
  unfolding extract_xex_info_def open_stream_def using assms
  by (simp add: seek_rec read_general)

lemma extract_xex_info_beyond_size:
  assumes "12 \<le> length buf" and "decode_ascii_ignore (take 4 buf) = ''XEX2''"
    and "code_offset_of buf > g buf"
  shows "extract_xex_info g (open_stream buf) =
    (Inl CodeOffsetBeyondSize, \<lparr>content = buf, pos = 12, reads = [(0, 4), (8, 4)]\<rparr>)"
proof -
  have u: "unpack_BE_I (take 4 (drop 8 buf)) = Inr (code_offset_of buf)"
    using assms(1) by (simp add: unpack_BE_I_at code_offset_of_def)
  have m: "min (length buf) 4 = 4" "min (length buf - 8) 4 = 4"
    using assms(1) by simp_all
  show ?thesis
    unfolding extract_xex_info_def open_stream_def using assms(2,3)
    by (simp add: seek_rec read_general m u)
qed

text \<open>
  Claim C3, as the code has it. The header checks run in the order magic, code offset
  against the size of the buffer object (\<^verbatim>\<open>sys.getsizeof\<close>), certificate offset, table
  size; the first that fails ends the function with \<^verbatim>\<open>False\<close> and its message, and
  each check reads the 4-byte field it needs just before it. So, for every buffer:
  a wrong magic is refused after the read at 0; with the magic right, a code offset
  beyond the size is refused after the reads at 0 and 8; with the code offset in
  range, \<open>cert_offset > code_offset\<close> is refused as the invalid certificate offset
  after the reads at 0, 8 and 16, and no read follows; with the certificate offset in
  range, \<open>header_entry_count * 8 + 24 > code_offset\<close> is refused as the table overflow
  after the reads at 0, 8, 16 and 20. Hence a buffer that holds the certificate field
  and has \<open>cert_offset > code_offset\<close>, and a buffer that holds the header and has
  \<open>header_entry_count * 8 + 24 > code_offset\<close>, is refused in every case, by the first
  check that fails. Each read logged lies inside the buffer.
\<close>

theorem header_validation_rejects:
  "(decode_ascii_ignore (take 4 buf) \<noteq> ''XEX2'' \<longrightarrow>
      extract_xex_info g (open_stream buf) =
        (Inl BadMagic,
         \<lparr>content = buf, pos = min (length buf) 4, reads = [(0, min (length buf) 4)]\<rparr>)) \<and>
   (12 \<le> length buf \<and> decode_ascii_ignore (take 4 buf) = ''XEX2'' \<and>
    code_offset_of buf > g buf \<longrightarrow>
      extract_xex_info g (open_stream buf) =
        (Inl CodeOffsetBeyondSize, \<lparr>content = buf, pos = 12, reads = [(0, 4), (8, 4)]\<rparr>)) \<and>
   (20 \<le> length buf \<and> decode_ascii_ignore (take 4 buf) = ''XEX2'' \<and>
    code_offset_of buf \<le> g buf \<and> cert_offset_of buf > code_offset_of buf \<longrightarrow>
      extract_xex_info g (open_stream buf) =
        (Inl CertOffsetInvalid,
         \<lparr>content = buf, pos = 20, reads = [(0, 4), (8, 4), (16, 4)]\<rparr>)) \<and>
   (24 \<le> length buf \<and> decode_ascii_ignore (take 4 buf) = ''XEX2'' \<and>
    code_offset_of buf \<le> g buf \<and> cert_offset_of buf \<le> code_offset_of buf \<and>
    entry_count_of buf * 8 + 24 > code_offset_of buf \<longrightarrow>
      extract_xex_info g (open_stream buf) =
        (Inl HeaderTableOverflow,
         \<lparr>content = buf, pos = 24, reads = [(0, 4), (8, 4), (16, 4), (20, 4)]\<rparr>)) \<and>
   (20 \<le> length buf \<and> cert_offset_of buf > code_offset_of buf \<longrightarrow>
      fst (extract_xex_info g (open_stream buf))
        \<in> {Inl BadMagic, Inl CodeOffsetBeyondSize, Inl CertOffsetInvalid}) \<and>
   (24 \<le> length buf \<and> entry_count_of buf * 8 + 24 > code_offset_of buf \<longrightarrow>
      fst (extract_xex_info g (open_stream buf))
        \<in> {Inl BadMagic, Inl CodeOffsetBeyondSize, Inl CertOffsetInvalid, Inl HeaderTableOverflow})"
proof (intro conjI impI)
  assume "decode_ascii_ignore (take 4 buf) \<noteq> ''XEX2''"
  then show "extract_xex_info g (open_stream buf) =
        (Inl BadMagic,
         \<lparr>content = buf, pos = min (length buf) 4, reads = [(0, min (length buf) 4)]\<rparr>)"
    by (rule extract_xex_info_bad_magic)
next
  assume "12 \<le> length buf \<and> decode_ascii_ignore (take 4 buf) = ''XEX2'' \<and>
    code_offset_of buf > g buf"
  then show "extract_xex_info g (open_stream buf) =
        (Inl CodeOffsetBeyondSize, \<lparr>content = buf, pos = 12, reads = [(0, 4), (8, 4)]\<rparr>)"
    by (intro extract_xex_info_beyond_size) simp_all
next
  assume a: "20 \<le> length buf \<and> decode_ascii_ignore (take 4 buf) = ''XEX2'' \<and>
    code_offset_of buf \<le> g buf \<and> cert_offset_of buf > code_offset_of buf"
  then have l: "20 \<le> length buf" by simp
  show "extract_xex_info g (open_stream buf) =
      (Inl CertOffsetInvalid, \<lparr>content = buf, pos = 20, reads = [(0, 4), (8, 4), (16, 4)]\<rparr>)"
    using a by (subst extract_xex_info_short_header [OF l]) simp
next
  assume a: "24 \<le> length buf \<and> decode_ascii_ignore (take 4 buf) = ''XEX2'' \<and>
    code_offset_of buf \<le> g buf \<and> cert_offset_of buf \<le> code_offset_of buf \<and>
    entry_count_of buf * 8 + 24 > code_offset_of buf"
  then have l: "24 \<le> length buf" by simp
  show "extract_xex_info g (open_stream buf) =
      (Inl HeaderTableOverflow, \<lparr>content = buf, pos = 24, reads = [(0, 4), (8, 4), (16, 4), (20, 4)]\<rparr>)"
    using a by (simp add: extract_xex_info_header [OF l] header_reads_def)
next
  assume a: "20 \<le> length buf \<and> cert_offset_of buf > code_offset_of buf"
  then have l: "20 \<le> length buf" by simp
  show "fst (extract_xex_info g (open_stream buf))
        \<in> {Inl BadMagic, Inl CodeOffsetBeyondSize, Inl CertOffsetInvalid}"
    using a by (subst extract_xex_info_short_header [OF l]) simp
next
  assume a: "24 \<le> length buf \<and> entry_count_of buf * 8 + 24 > code_offset_of buf"
  then have l: "24 \<le> length buf" by simp
  show "fst (extract_xex_info g (open_stream buf))
        \<in> {Inl BadMagic, Inl CodeOffsetBeyondSize, Inl CertOffsetInvalid, Inl HeaderTableOverflow}"
    using a by (simp add: extract_xex_info_header [OF l])
qed

lemmas field_defs = code_offset_of_def cert_offset_of_def entry_count_of_def u32be_at_def be_nat_def

lemma w3_magic_bytes:
  "w3_magic = [0x58, 0x45, 0x58, 0x31, 0,0,0,0, 0,0,0,0, 0,0,0,0, 0,0,0,0, 0,0,0,0]"
  by (simp add: w3_magic_def numeral_eq_Suc)

lemma w3_cert_bytes:
  "w3_cert = [0x58, 0x45, 0x58, 0x32, 0,0,0,0, 0,0,1,0, 0,0,0,0, 0,0,2,0, 0,0,0,1] @ replicate 232 0"
  by (simp add: w3_cert_def xex_header_def be32_def encode_XEX2)

lemma w3_table_bytes:
  "w3_table = [0x58, 0x45, 0x58, 0x32, 0,0,0,0, 0,0,1,0, 0,0,0,0, 0,0,0,0x20, 0,0,0,30] @ replicate 232 0"
  by (simp add: w3_table_def xex_header_def be32_def encode_XEX2)

lemma c3_guard_bytes:
  "c3_guard = [0x58, 0x45, 0x58, 0x32, 0,0,0,0, 0,0,0x10,0, 0,0,0,0, 0,0,0x20,0, 0,0,0,0]"
  by (simp add: c3_guard_def xex_header_def be32_def encode_XEX2)

text \<open>
  One buffer for each check: 24 bytes that start with \<^verbatim>\<open>XEX1\<close>; a header of 24 bytes
  with \<open>code_offset = 0x1000\<close>, beyond the size 138 of its buffer object; the buffer of
  the specification's scenario, 256 bytes long, with \<open>cert_offset = 0x200\<close>; and the
  same buffer with 30 table entries.
\<close>

theorem header_validation_rejects_witness:
  "decode_ascii_ignore (take 4 w3_magic) = ''XEX1'' \<and> length w3_magic = 24 \<and>
   extract_xex_info getsizeof_cpython (open_stream w3_magic) =
     (Inl BadMagic, \<lparr>content = w3_magic, pos = 4, reads = [(0, 4)]\<rparr>) \<and>
   length c3_guard = 24 \<and> decode_ascii_ignore (take 4 c3_guard) = ''XEX2'' \<and>
   code_offset_of c3_guard = 0x1000 \<and> getsizeof_cpython c3_guard = 138 \<and>
   extract_xex_info getsizeof_cpython (open_stream c3_guard) =
     (Inl CodeOffsetBeyondSize, \<lparr>content = c3_guard, pos = 12, reads = [(0, 4), (8, 4)]\<rparr>) \<and>
   length w3_cert = 256 \<and> code_offset_of w3_cert = 0x100 \<and> cert_offset_of w3_cert = 0x200 \<and>
   decode_ascii_ignore (take 4 w3_cert) = ''XEX2'' \<and> getsizeof_cpython w3_cert = 370 \<and>
   extract_xex_info getsizeof_cpython (open_stream w3_cert) =
     (Inl CertOffsetInvalid, \<lparr>content = w3_cert, pos = 20, reads = [(0, 4), (8, 4), (16, 4)]\<rparr>) \<and>
   length w3_table = 256 \<and> code_offset_of w3_table = 0x100 \<and> cert_offset_of w3_table = 0x20 \<and>
   entry_count_of w3_table = 30 \<and>
   decode_ascii_ignore (take 4 w3_table) = ''XEX2'' \<and> getsizeof_cpython w3_table = 370 \<and>
   extract_xex_info getsizeof_cpython (open_stream w3_table) =
     (Inl HeaderTableOverflow,
      \<lparr>content = w3_table, pos = 24, reads = [(0, 4), (8, 4), (16, 4), (20, 4)]\<rparr>)"
proof -
  have m: "decode_ascii_ignore (take 4 w3_magic) = ''XEX1''" "length w3_magic = 24"
    by (simp_all add: w3_magic_bytes decode_ascii_ignore_def char_of_eq_iff)
  have g: "length c3_guard = 24" "decode_ascii_ignore (take 4 c3_guard) = ''XEX2''"
    "code_offset_of c3_guard = 0x1000" "getsizeof_cpython c3_guard = 138"
    by (simp_all add: c3_guard_bytes field_defs decode_XEX2 getsizeof_cpython_def)
  have c: "length w3_cert = 256" "code_offset_of w3_cert = 0x100" "cert_offset_of w3_cert = 0x200"
    "decode_ascii_ignore (take 4 w3_cert) = ''XEX2''" "getsizeof_cpython w3_cert = 370"
    by (simp_all add: w3_cert_bytes field_defs decode_XEX2 getsizeof_cpython_def)
  have t: "length w3_table = 256" "code_offset_of w3_table = 0x100" "cert_offset_of w3_table = 0x20"
    "entry_count_of w3_table = 30"
    "decode_ascii_ignore (take 4 w3_table) = ''XEX2''" "getsizeof_cpython w3_table = 370"
    by (simp_all add: w3_table_bytes field_defs decode_XEX2 getsizeof_cpython_def)
  show ?thesis
    using header_validation_rejects [of w3_magic getsizeof_cpython]
      header_validation_rejects [of c3_guard getsizeof_cpython]
      header_validation_rejects [of w3_cert getsizeof_cpython]
      header_validation_rejects [of w3_table getsizeof_cpython]
    by (simp add: m g c t)
qed

lemma c3_both_bytes:
  "c3_both = [0x58, 0x45, 0x58, 0x32, 0,0,0,0, 0,0,0,0x10, 0,0,0,0, 0,0,0,0x20, 0,0,0,1]"
  by (simp add: c3_both_def xex_header_def be32_def encode_XEX2)

text \<open>
  Claim C3 as stated fails. A header with \<open>code_offset = 0x1000\<close> and
  \<open>cert_offset = 0x2000\<close> in a 24-byte buffer is refused by the check of the code
  offset against the size of the buffer, which comes first and which the claim does not
  know, and not as an invalid certificate offset. A header with \<open>code_offset = 0x10\<close>,
  \<open>cert_offset = 0x20\<close> and one table entry breaks both conditions of the claim, and
  gets the failure of the first.
\<close>

theorem header_validation_counterexample:
  "cert_offset_of c3_guard > code_offset_of c3_guard \<and>
   fst (extract_xex_info getsizeof_cpython (open_stream c3_guard)) = Inl CodeOffsetBeyondSize \<and>
   entry_count_of c3_both * 8 + 24 > code_offset_of c3_both \<and>
   fst (extract_xex_info getsizeof_cpython (open_stream c3_both)) = Inl CertOffsetInvalid"
  by (simp add: extract_xex_info_header c3_both_bytes c3_guard_bytes decode_XEX2 field_defs
      getsizeof_cpython_def)

section \<open>The header table\<close>

text \<open>
  The size that bounds the code offset. The check of line 129 compares the code offset
  with \<^verbatim>\<open>sys.getsizeof(xex_buffer)\<close>, the size of the buffer object in memory, and
  prints that the code starts beyond the size of \<^verbatim>\<open>default.xex\<close>. With the length
  of the data as the size, a buffer that passes the header checks holds its whole
  table; and it passes them as well for every size at least as large.
\<close>

lemma validation_bounds_table:
  "passes_validation length buf \<Longrightarrow> 24 + 8 * entry_count_of buf \<le> length buf"
  by (simp add: passes_validation_def)

lemma passes_validation_size:
  "passes_validation length buf \<Longrightarrow> length buf \<le> g buf \<Longrightarrow> passes_validation g buf"
  by (simp add: passes_validation_def)

text \<open>
  The table scan on a buffer that passes the header checks and holds its whole table
  (\<open>24 + 8 * header_entry_count\<close> bytes): it reads exactly \<open>header_entry_count\<close>
  records of two 4-byte words from offset 24 on, ends with the value of the last
  record whose identifier is 0x00040006, and the parser returns \<^verbatim>\<open>False\<close> without
  a message when no record has that identifier. The scan is a recursion on the number
  of records left, so it returns on every buffer; on any stream it performs at most
  two reads per record.
\<close>

lemma table_scan_within_buffer:
  assumes "passes_validation g buf" and "24 + 8 * entry_count_of buf \<le> length buf"
  shows "scan_table (entry_count_of buf) None \<lparr>content = buf, pos = 24, reads = header_reads\<rparr> =
      (Inr (last_match (table_records buf)),
       \<lparr>content = buf, pos = 24 + 8 * entry_count_of buf,
        reads = header_reads @ record_reads 24 (entry_count_of buf)\<rparr>) \<and>
    ((\<forall>r \<in> set (table_records buf). fst r \<noteq> 0x00040006) \<longrightarrow>
      extract_xex_info g (open_stream buf) =
        (Inl ExecutionInfoNotFound,
         \<lparr>content = buf, pos = 24 + 8 * entry_count_of buf,
          reads = header_reads @ record_reads 24 (entry_count_of buf)\<rparr>)) \<and>
    length (reads (snd (scan_table n addr b))) \<le> length (reads b) + 2 * n"
proof (intro conjI impI)
  show "scan_table (entry_count_of buf) None \<lparr>content = buf, pos = 24, reads = header_reads\<rparr> =
      (Inr (last_match (table_records buf)),
       \<lparr>content = buf, pos = 24 + 8 * entry_count_of buf,
        reads = header_reads @ record_reads 24 (entry_count_of buf)\<rparr>)"
    by (simp add: scan_table_within [OF assms(2)] latest_None table_records_def)
next
  assume "\<forall>r \<in> set (table_records buf). fst r \<noteq> 0x00040006"
  then have "filter is_execution_info (table_records buf) = []"
    by (simp add: filter_empty_conv is_execution_info_def)
  then have "last_match (table_records buf) = None"
    by (simp add: last_match_def)
  then show "extract_xex_info g (open_stream buf) =
        (Inl ExecutionInfoNotFound,
         \<lparr>content = buf, pos = 24 + 8 * entry_count_of buf,
          reads = header_reads @ record_reads 24 (entry_count_of buf)\<rparr>)"
    by (simp add: extract_xex_info_valid [OF assms])
next
  show "length (reads (snd (scan_table n addr b))) \<le> length (reads b) + 2 * n"
    by (rule scan_table_reads_bound)
qed

text \<open>
  With the length of the data as the size of line 129, this is the scan of every buffer
  that passes the header checks.
\<close>

lemma table_scan_checked_length:
  assumes "passes_validation length buf"
  shows "scan_table (entry_count_of buf) None \<lparr>content = buf, pos = 24, reads = header_reads\<rparr> =
      (Inr (last_match (table_records buf)),
       \<lparr>content = buf, pos = 24 + 8 * entry_count_of buf,
        reads = header_reads @ record_reads 24 (entry_count_of buf)\<rparr>) \<and>
    ((\<forall>r \<in> set (table_records buf). fst r \<noteq> 0x00040006) \<longrightarrow>
      extract_xex_info length (open_stream buf) =
        (Inl ExecutionInfoNotFound,
         \<lparr>content = buf, pos = 24 + 8 * entry_count_of buf,
          reads = header_reads @ record_reads 24 (entry_count_of buf)\<rparr>))"
  using table_scan_within_buffer [OF assms validation_bounds_table [OF assms]] by simp

lemma w4_nomatch_bytes:
  "w4_nomatch = [0x58, 0x45, 0x58, 0x32, 0,0,0,0, 0,0,1,0, 0,0,0,0, 0,0,0,0x20, 0,0,0,2,
                 0,0,0,1, 0,0,0,2, 0,0,0,3, 0,0,0,4] @ replicate 216 0"
  by (simp add: w4_nomatch_def xex_header_def be32_def encode_XEX2)

lemma upt_2: "[0..<2] = [0, Suc 0]"
  by (simp add: upt_rec)

lemma upt_3: "[0..<3] = [0, Suc 0, 2]"
  by (simp add: upt_rec)

lemma w4_facts:
  "passes_validation length w4_nomatch"
  "entry_count_of w4_nomatch = 2"
  "length w4_nomatch = 256"
  "table_records w4_nomatch = [(1, 2), (3, 4)]"
  by (simp_all add: w4_nomatch_bytes passes_validation_def field_defs decode_XEX2
      table_records_def records_from_def upt_2)

text \<open>A 256-byte buffer with the two records (1, 2) and (3, 4).\<close>

lemma table_scan_example:
  "passes_validation length w4_nomatch \<and> entry_count_of w4_nomatch = 2 \<and>
   length w4_nomatch = 256 \<and> table_records w4_nomatch = [(1, 2), (3, 4)] \<and>
   extract_xex_info length (open_stream w4_nomatch) =
     (Inl ExecutionInfoNotFound,
      \<lparr>content = w4_nomatch, pos = 40,
       reads = [(0, 4), (8, 4), (16, 4), (20, 4), (24, 4), (28, 4), (32, 4), (36, 4)]\<rparr>)"
  using table_scan_checked_length [OF w4_facts(1)]
  by (simp add: w4_facts header_reads_def record_reads_def upt_2)

lemma c4_truncated_bytes:
  "c4_truncated = [0x58, 0x45, 0x58, 0x32, 0,0,0,0, 0,0,0,32, 0,0,0,0, 0,0,0,0, 0,0,0,1]"
  by (simp add: c4_truncated_def xex_header_def be32_def encode_XEX2)

text \<open>
  Claim C4 fails on the code. A buffer of 24 bytes that announces one record, with
  \<open>code_offset = 32\<close>, holds no record at all. Its code offset is beyond the size of
  \<^verbatim>\<open>default.xex\<close>, 24 bytes, which is what the message of line 129 refuses; but the
  comparison of that line is with \<^verbatim>\<open>sys.getsizeof\<close> of the buffer object, 138, and
  the buffer passes every header check. The first read of the scan returns nothing and
  \<^verbatim>\<open>unpack\<close> raises \<^verbatim>\<open>struct.error\<close>: the scan does not go over one record, and the
  parser does not fail with the missing execution info. With the length of the data
  as the size, the buffer is refused by the check of the code offset.
\<close>

theorem header_table_scan_truncated:
  "length c4_truncated = 24 \<and> code_offset_of c4_truncated = 32 \<and>
   getsizeof_cpython c4_truncated = 138 \<and>
   passes_validation getsizeof_cpython c4_truncated \<and> entry_count_of c4_truncated = 1 \<and>
   filter is_execution_info (table_records c4_truncated) = [] \<and>
   extract_xex_info getsizeof_cpython (open_stream c4_truncated) =
     (Inl StructError,
      \<lparr>content = c4_truncated, pos = 24, reads = [(0, 4), (8, 4), (16, 4), (20, 4), (24, 0)]\<rparr>) \<and>
   fst (extract_xex_info length (open_stream c4_truncated)) = Inl CodeOffsetBeyondSize"
proof -
  have v: "passes_validation getsizeof_cpython c4_truncated" "entry_count_of c4_truncated = 1"
    "code_offset_of c4_truncated = 32" "cert_offset_of c4_truncated = 0"
    "getsizeof_cpython c4_truncated = 138" "length c4_truncated = 24"
    by (simp_all add: c4_truncated_bytes passes_validation_def field_defs decode_XEX2
        getsizeof_cpython_def)
  have t: "filter is_execution_info (table_records c4_truncated) = []"
    by (simp add: c4_truncated_bytes table_records_def records_from_def field_defs
        is_execution_info_def)
  have l: "24 \<le> length c4_truncated" by (simp add: c4_truncated_bytes)
  have m: "decode_ascii_ignore (take 4 c4_truncated) = ''XEX2''"
    using v(1) by (simp add: passes_validation_def)
  have s: "scan_table (Suc 0) None \<lparr>content = c4_truncated, pos = 24, reads = header_reads\<rparr> =
      (Inl StructError, \<lparr>content = c4_truncated, pos = 24, reads = header_reads @ [(24, 0)]\<rparr>)"
    by (simp add: read_general unpack_BE_I_def c4_truncated_bytes)
  have d: "fst (extract_xex_info length (open_stream c4_truncated)) = Inl CodeOffsetBeyondSize"
    using v by (simp add: extract_xex_info_header [OF l] m)
  show ?thesis
    using v t s d by (simp add: extract_xex_info_header [OF l] m header_reads_def)
qed

section \<open>The choice among matching records\<close>

lemma last_match_Some:
  "filter is_execution_info recs \<noteq> [] \<Longrightarrow>
   last_match recs = Some (snd (last (filter is_execution_info recs)))"
  by (cases "filter is_execution_info recs") (simp_all add: last_match_def)

text \<open>
  The choice on a buffer that passes the header checks and holds its whole table, in
  which some record (one or several) has the identifier 0x00040006: the scan does not
  stop at a match, it reads all \<open>header_entry_count\<close> records, and the execution info
  is then decoded at the value of the last record with that identifier. With the
  length of the data as the size of line 129, this holds for every buffer that passes
  the header checks.
\<close>

lemma last_match_within_buffer:
  assumes "passes_validation g buf" and "24 + 8 * entry_count_of buf \<le> length buf"
    and "filter is_execution_info (table_records buf) \<noteq> []"
  shows "extract_xex_info g (open_stream buf) =
    decode_execution_info (snd (last (filter is_execution_info (table_records buf))))
      \<lparr>content = buf, pos = 24 + 8 * entry_count_of buf,
       reads = header_reads @ record_reads 24 (entry_count_of buf)\<rparr>"
proof -
  from assms(3) have "last_match (table_records buf) =
      Some (snd (last (filter is_execution_info (table_records buf))))"
    by (rule last_match_Some)
  then show ?thesis
    by (simp add: extract_xex_info_valid [OF assms(1,2)])
qed

lemma last_match_checked_length:
  assumes "passes_validation length buf"
    and "1 < length (filter is_execution_info (table_records buf))"
  shows "extract_xex_info length (open_stream buf) =
    decode_execution_info (snd (last (filter is_execution_info (table_records buf))))
      \<lparr>content = buf, pos = 24 + 8 * entry_count_of buf,
       reads = header_reads @ record_reads 24 (entry_count_of buf)\<rparr>"
proof -
  have "filter is_execution_info (table_records buf) \<noteq> []"
    using assms(2) by auto
  then show ?thesis
    using assms(1) validation_bounds_table [OF assms(1)] by (intro last_match_within_buffer)
qed

text \<open>
  Claim C10, as the code has it. For a buffer that passes the header checks and holds
  its whole table: when the table contains the record (0x00040006, 0), the parser does
  not fail with the missing execution info; and when that record is the last one with
  this identifier, the value 0 is the address used: the execution info is decoded from
  offset 0 of the buffer, that is from the header itself, and the decoding succeeds.
\<close>

theorem zero_offset_accepted:
  assumes "passes_validation g buf" and "24 + 8 * entry_count_of buf \<le> length buf"
  shows "((0x00040006, 0) \<in> set (table_records buf) \<longrightarrow>
            fst (extract_xex_info g (open_stream buf)) \<noteq> Inl ExecutionInfoNotFound) \<and>
         (filter is_execution_info (table_records buf) \<noteq> [] \<and>
          last (filter is_execution_info (table_records buf)) = (0x00040006, 0) \<longrightarrow>
            extract_xex_info g (open_stream buf) =
              (Inr \<lparr>media_id = hex_id (take 4 buf), version = u32be_at buf 4,
                    base_version = u32be_at buf 8, title_id = hex_id (take 4 (drop 12 buf)),
                    platform = unat (buf ! 16), executable_type = unat (buf ! 17),
                    disc_number = unat (buf ! 18), disc_count = unat (buf ! 19)\<rparr>,
               \<lparr>content = buf, pos = 20,
                reads = header_reads @ record_reads 24 (entry_count_of buf) @
                        [(0, 4), (4, 4), (8, 4), (12, 4), (16, 1), (17, 1), (18, 1), (19, 1)]\<rparr>))"
proof (intro conjI impI)
  assume "(0x00040006, 0) \<in> set (table_records buf)"
  then have "(0x00040006, 0) \<in> set (filter is_execution_info (table_records buf))"
    by (simp add: is_execution_info_def)
  then obtain m ms where "filter is_execution_info (table_records buf) = m # ms"
    by (cases "filter is_execution_info (table_records buf)") auto
  then obtain a where a: "last_match (table_records buf) = Some a"
    by (simp add: last_match_def)
  show "fst (extract_xex_info g (open_stream buf)) \<noteq> Inl ExecutionInfoNotFound"
  proof
    assume "fst (extract_xex_info g (open_stream buf)) = Inl ExecutionInfoNotFound"
    then have "fst (decode_execution_info a
        \<lparr>content = buf, pos = 24 + 8 * entry_count_of buf,
         reads = header_reads @ record_reads 24 (entry_count_of buf)\<rparr>) = Inl ExecutionInfoNotFound"
      by (simp add: extract_xex_info_valid [OF assms] a)
    then show False by (auto dest: decode_execution_info_error)
  qed
next
  assume h: "filter is_execution_info (table_records buf) \<noteq> [] \<and>
          last (filter is_execution_info (table_records buf)) = (0x00040006, 0)"
  then have a: "last_match (table_records buf) = Some 0"
    using last_match_Some [of "table_records buf"] by simp
  have l: "0 + 20 \<le> length buf" using assms(1) by (simp add: passes_validation_def)
  show "extract_xex_info g (open_stream buf) =
              (Inr \<lparr>media_id = hex_id (take 4 buf), version = u32be_at buf 4,
                    base_version = u32be_at buf 8, title_id = hex_id (take 4 (drop 12 buf)),
                    platform = unat (buf ! 16), executable_type = unat (buf ! 17),
                    disc_number = unat (buf ! 18), disc_count = unat (buf ! 19)\<rparr>,
               \<lparr>content = buf, pos = 20,
                reads = header_reads @ record_reads 24 (entry_count_of buf) @
                        [(0, 4), (4, 4), (8, 4), (12, 4), (16, 1), (17, 1), (18, 1), (19, 1)]\<rparr>)"
    using decode_execution_info_within [OF l]
    by (simp add: extract_xex_info_valid [OF assms] a)
qed

lemma pad12: "replicate 12 (0::byte) = [0, 0, 0, 0, 0, 0, 0, 0, 0, 0, 0, 0]"
  by (simp add: numeral_eq_Suc)

lemma pad16: "replicate 16 (0::byte) = [0, 0, 0, 0, 0, 0, 0, 0, 0, 0, 0, 0, 0, 0, 0, 0]"
  by (simp add: numeral_eq_Suc)

lemma pad24: "replicate 24 (0::byte) = [0, 0, 0, 0, 0, 0, 0, 0, 0, 0, 0, 0, 0, 0, 0, 0, 0, 0, 0, 0, 0, 0, 0, 0]"
  by (simp add: numeral_eq_Suc)

lemma w9_two_matches_bytes:
  "w9_two_matches =
     [88, 69, 88, 50, 0, 0, 0, 0, 0, 0, 1, 0, 0, 0, 0, 0, 0, 0, 0, 32, 0, 0, 0, 3, 0, 4, 0, 6, 0, 0, 0, 96, 0, 4, 0, 6, 0, 0, 0, 64, 0, 3, 0, 0, 0, 0, 0, 128, 0, 0, 0, 0, 0, 0, 0, 0, 0, 0, 0, 0, 0, 0, 0, 0, 170, 187, 204, 221, 1, 2, 3, 4, 5, 6, 7, 8, 77, 83, 7, 209, 2, 1, 1, 2, 0, 0, 0, 0, 0, 0, 0, 0, 0, 0, 0, 0, 17, 34, 51, 68, 0, 0, 0, 1, 0, 0, 0, 2, 85, 102, 119, 136, 9, 8, 7, 6] @ replicate 140 0"
  by (simp add: w9_two_matches_def xex_header_def be32_def encode_XEX2 execution_info_bytes_def info_a_def info_b_def pad12 pad16)

lemma c9_truncated_bytes:
  "c9_truncated =
     [88, 69, 88, 50, 0, 0, 0, 0, 0, 0, 0, 48, 0, 0, 0, 0, 0, 0, 0, 0, 0, 0, 0, 3, 0, 4, 0, 6, 0, 0, 0, 40, 0, 4, 0, 6, 0, 0, 0, 40]"
  by (simp add: c9_truncated_def xex_header_def be32_def encode_XEX2 execution_info_bytes_def)

lemma c10_overridden_bytes:
  "c10_overridden =
     [88, 69, 88, 50, 0, 0, 0, 0, 0, 0, 1, 0, 0, 0, 0, 0, 0, 0, 0, 32, 0, 0, 0, 2, 0, 4, 0, 6, 0, 0, 0, 0, 0, 4, 0, 6, 0, 0, 0, 64, 0, 0, 0, 0, 0, 0, 0, 0, 0, 0, 0, 0, 0, 0, 0, 0, 0, 0, 0, 0, 0, 0, 0, 0, 170, 187, 204, 221, 1, 2, 3, 4, 5, 6, 7, 8, 77, 83, 7, 209, 2, 1, 1, 2] @ replicate 172 0"
  by (simp add: c10_overridden_def xex_header_def be32_def encode_XEX2 execution_info_bytes_def info_a_def pad24)

lemma w10_zero_bytes:
  "w10_zero =
     [88, 69, 88, 50, 0, 0, 0, 0, 0, 0, 1, 0, 0, 0, 0, 0, 0, 0, 0, 32, 0, 0, 0, 1, 0, 4, 0, 6, 0, 0, 0, 0] @ replicate 224 0"
  by (simp add: w10_zero_def xex_header_def be32_def encode_XEX2 execution_info_bytes_def)

lemmas eval_defs = passes_validation_def field_defs decode_XEX2 getsizeof_cpython_def
  table_records_def records_from_def is_execution_info_def

lemmas hex_defs = hex_id_def hexlify_def hexdigit_def decode_ascii_ignore_def upper_def
  upper_char_def char_of_eq_iff

text \<open>
  Three records, the first two with the wanted identifier: the execution info at 0x40,
  the value of the second, is decoded, not the one at 0x60, and the third record is
  read as well.
\<close>

lemma last_match_example:
  "passes_validation length w9_two_matches \<and> length w9_two_matches = 256 \<and>
   table_records w9_two_matches = [(0x00040006, 0x60), (0x00040006, 0x40), (0x00030000, 0x80)] \<and>
   hex_id (take 4 (drop 0x60 w9_two_matches)) = ''11223344'' \<and>
   fst (extract_xex_info length (open_stream w9_two_matches)) =
     Inr \<lparr>media_id = ''AABBCCDD'', version = 0x01020304, base_version = 0x05060708,
          title_id = ''4D5307D1'', platform = 2, executable_type = 1,
          disc_number = 1, disc_count = 2\<rparr> \<and>
   reads (snd (extract_xex_info length (open_stream w9_two_matches))) =
     [(0, 4), (8, 4), (16, 4), (20, 4),
      (24, 4), (28, 4), (32, 4), (36, 4), (40, 4), (44, 4),
      (64, 4), (68, 4), (72, 4), (76, 4), (80, 1), (81, 1), (82, 1), (83, 1)]"
proof -
  have v: "passes_validation length w9_two_matches"
    by (simp add: w9_two_matches_bytes eval_defs)
  have n: "entry_count_of w9_two_matches = 3" "length w9_two_matches = 256"
    by (simp_all add: w9_two_matches_bytes field_defs)
  have t: "table_records w9_two_matches =
      [(0x00040006, 0x60), (0x00040006, 0x40), (0x00030000, 0x80)]"
    by (simp add: w9_two_matches_bytes eval_defs upt_3)
  have f: "1 < length (filter is_execution_info (table_records w9_two_matches))"
    and l: "snd (last (filter is_execution_info (table_records w9_two_matches))) = 0x40"
    by (simp_all add: t is_execution_info_def)
  have d: "0x40 + 20 \<le> length w9_two_matches" by (simp add: n)
  have h: "hex_id (take 4 (drop 0x60 w9_two_matches)) = ''11223344''"
    "hex_id (take 4 (drop 0x40 w9_two_matches)) = ''AABBCCDD''"
    "hex_id (take 4 (drop 0x4C w9_two_matches)) = ''4D5307D1''"
    by (simp_all add: w9_two_matches_bytes hex_defs)
  have u: "u32be_at w9_two_matches 0x44 = 0x01020304" "u32be_at w9_two_matches 0x48 = 0x05060708"
    "unat (w9_two_matches ! 0x50) = 2" "unat (w9_two_matches ! 0x51) = 1"
    "unat (w9_two_matches ! 0x52) = 1" "unat (w9_two_matches ! 0x53) = 2"
    by (simp_all add: w9_two_matches_bytes field_defs)
  have r: "extract_xex_info length (open_stream w9_two_matches) =
      decode_execution_info 0x40
        \<lparr>content = w9_two_matches, pos = 24 + 8 * entry_count_of w9_two_matches,
         reads = header_reads @ record_reads 24 (entry_count_of w9_two_matches)\<rparr>"
    using last_match_checked_length [OF v f] by (simp only: l)
  show ?thesis
    by (simp add: r v n t h u decode_execution_info_within [OF d] header_reads_def
        record_reads_def upt_3)
qed

text \<open>
  Claim C9 fails on the code. A buffer of 40 bytes that announces three records and
  holds two, both with the wanted identifier, has \<open>code_offset = 48\<close>, beyond the size
  of \<^verbatim>\<open>default.xex\<close>, which is what the message of line 129 refuses; the comparison
  of that line is with \<^verbatim>\<open>sys.getsizeof\<close> of the buffer object, 154, and the buffer
  passes every header check. The scan reads the two records, finds nothing to read for
  the third and ends in \<^verbatim>\<open>struct.error\<close>: it does not go through all three records
  and nothing is decoded at the value of the last matching record. With the length of
  the data as the size, the buffer is refused by the check of the code offset.
\<close>

theorem last_match_wins_truncated:
  "length c9_truncated = 40 \<and> code_offset_of c9_truncated = 48 \<and>
   getsizeof_cpython c9_truncated = 154 \<and>
   passes_validation getsizeof_cpython c9_truncated \<and> entry_count_of c9_truncated = 3 \<and>
   length (filter is_execution_info (table_records c9_truncated)) = 2 \<and>
   extract_xex_info getsizeof_cpython (open_stream c9_truncated) =
     (Inl StructError,
      \<lparr>content = c9_truncated, pos = 40,
       reads = [(0, 4), (8, 4), (16, 4), (20, 4), (24, 4), (28, 4), (32, 4), (36, 4), (40, 0)]\<rparr>) \<and>
   fst (extract_xex_info length (open_stream c9_truncated)) = Inl CodeOffsetBeyondSize"
proof -
  have v: "passes_validation getsizeof_cpython c9_truncated" "entry_count_of c9_truncated = 3"
    "code_offset_of c9_truncated = 48" "cert_offset_of c9_truncated = 0"
    "getsizeof_cpython c9_truncated = 154" "length c9_truncated = 40"
    by (simp_all add: c9_truncated_bytes eval_defs)
  have t: "length (filter is_execution_info (table_records c9_truncated)) = 2"
    by (simp add: c9_truncated_bytes eval_defs upt_3)
  have l: "24 \<le> length c9_truncated" by (simp add: c9_truncated_bytes)
  have m: "decode_ascii_ignore (take 4 c9_truncated) = ''XEX2''"
    using v(1) by (simp add: passes_validation_def)
  have s: "scan_table 3 None \<lparr>content = c9_truncated, pos = 24, reads = header_reads\<rparr> =
      (Inl StructError,
       \<lparr>content = c9_truncated, pos = 40,
        reads = header_reads @ [(24, 4), (28, 4), (32, 4), (36, 4), (40, 0)]\<rparr>)"
    by (simp add: numeral_3_eq_3 read_general unpack_BE_I_def be_nat_def c9_truncated_bytes)
  have d: "fst (extract_xex_info length (open_stream c9_truncated)) = Inl CodeOffsetBeyondSize"
    using v by (simp add: extract_xex_info_header [OF l] m)
  show ?thesis
    using v t s d by (simp add: extract_xex_info_header [OF l] m header_reads_def)
qed

text \<open>One record (0x00040006, 0): the fields come out of the 20 first bytes of the header.\<close>

theorem zero_offset_accepted_witness:
  "passes_validation getsizeof_cpython w10_zero \<and> length w10_zero = 256 \<and>
   table_records w10_zero = [(0x00040006, 0)] \<and>
   fst (extract_xex_info getsizeof_cpython (open_stream w10_zero)) =
     Inr \<lparr>media_id = ''58455832'', version = 0, base_version = 0x100,
          title_id = ''00000000'', platform = 0, executable_type = 0,
          disc_number = 0, disc_count = 0x20\<rparr>"
proof -
  have v: "passes_validation getsizeof_cpython w10_zero"
    by (simp add: w10_zero_bytes eval_defs)
  have n: "entry_count_of w10_zero = 1" "length w10_zero = 256"
    by (simp_all add: w10_zero_bytes field_defs)
  have t: "table_records w10_zero = [(0x00040006, 0)]"
    by (simp add: w10_zero_bytes eval_defs)
  have b: "24 + 8 * entry_count_of w10_zero \<le> length w10_zero"
    by (simp add: n)
  have h: "hex_id (take 4 w10_zero) = ''58455832''"
    "hex_id (take 4 (drop 12 w10_zero)) = ''00000000''"
    by (simp_all add: w10_zero_bytes hex_defs)
  have u: "u32be_at w10_zero 4 = 0" "u32be_at w10_zero 8 = 0x100"
    "unat (w10_zero ! 16) = 0" "unat (w10_zero ! 17) = 0"
    "unat (w10_zero ! 18) = 0" "unat (w10_zero ! 19) = 0x20"
    by (simp_all add: w10_zero_bytes field_defs)
  show ?thesis
    using zero_offset_accepted [OF v b]
    by (simp add: v n t h u is_execution_info_def)
qed

text \<open>
  Claim C10 as stated fails. The table holds (0x00040006, 0) and after it
  (0x00040006, 0x40): the execution info is decoded at 0x40, not at offset 0, where
  the media id would read 58455832.
\<close>

theorem zero_offset_accepted_counterexample:
  "passes_validation getsizeof_cpython c10_overridden \<and>
   24 + 8 * entry_count_of c10_overridden \<le> length c10_overridden \<and>
   table_records c10_overridden = [(0x00040006, 0), (0x00040006, 0x40)] \<and>
   hex_id (take 4 c10_overridden) = ''58455832'' \<and>
   fst (extract_xex_info getsizeof_cpython (open_stream c10_overridden)) =
     Inr \<lparr>media_id = ''AABBCCDD'', version = 0x01020304, base_version = 0x05060708,
          title_id = ''4D5307D1'', platform = 2, executable_type = 1,
          disc_number = 1, disc_count = 2\<rparr>"
proof -
  have v: "passes_validation getsizeof_cpython c10_overridden"
    by (simp add: c10_overridden_bytes eval_defs)
  have n: "entry_count_of c10_overridden = 2" "length c10_overridden = 256"
    by (simp_all add: c10_overridden_bytes field_defs)
  have t: "table_records c10_overridden = [(0x00040006, 0), (0x00040006, 0x40)]"
    by (simp add: c10_overridden_bytes eval_defs upt_2)
  have b: "24 + 8 * entry_count_of c10_overridden \<le> length c10_overridden"
    by (simp add: n)
  have a: "last_match (table_records c10_overridden) = Some 0x40"
    by (simp add: t last_match_def is_execution_info_def)
  have d: "0x40 + 20 \<le> length c10_overridden" by (simp add: n)
  have h: "hex_id (take 4 c10_overridden) = ''58455832''"
    "hex_id (take 4 (drop 0x40 c10_overridden)) = ''AABBCCDD''"
    "hex_id (take 4 (drop 0x4C c10_overridden)) = ''4D5307D1''"
    by (simp_all add: c10_overridden_bytes hex_defs)
  have u: "u32be_at c10_overridden 0x44 = 0x01020304" "u32be_at c10_overridden 0x48 = 0x05060708"
    "unat (c10_overridden ! 0x50) = 2" "unat (c10_overridden ! 0x51) = 1"
    "unat (c10_overridden ! 0x52) = 1" "unat (c10_overridden ! 0x53) = 2"
    by (simp_all add: c10_overridden_bytes field_defs)
  have r: "extract_xex_info getsizeof_cpython (open_stream c10_overridden) =
      decode_execution_info 0x40
        \<lparr>content = c10_overridden, pos = 24 + 8 * entry_count_of c10_overridden,
         reads = header_reads @ record_reads 24 (entry_count_of c10_overridden)\<rparr>"
    by (simp add: extract_xex_info_valid [OF v b] a)
  show ?thesis
    by (simp add: r v n t h u decode_execution_info_within [OF d])
qed

section \<open>The directory scan\<close>

lemma of_char_less: "(of_char c :: nat) < 256"
  by (metis of_char_mod_256 mod_less_divisor zero_less_numeral)

lemma unat_encode: "unat (of_nat (of_char c) :: byte) = of_char c"
  by (simp add: unat_of_nat of_char_less)

lemma byte_eq_iff: "(b :: byte) = of_nat (of_char c) \<longleftrightarrow> unat b = of_char c"
proof
  assume "b = of_nat (of_char c)"
  then show "unat b = of_char c" by (simp add: unat_encode)
next
  assume "unat b = of_char c"
  then have "(of_nat (unat b) :: byte) = of_nat (of_char c)" by simp
  then show "b = of_nat (of_char c)" by simp
qed

lemma lower_char_iff:
  assumes "unat b < 128" and "\<not> (65 \<le> (of_char c :: nat) \<and> (of_char c :: nat) \<le> 90)"
  shows "lower_char (char_of (unat b)) = c \<longleftrightarrow> ci_equal b (of_nat (of_char c))"
proof -
  let ?n = "unat b"
  have m: "?n mod 256 = ?n" using assms(1) by simp
  have oc: "(of_char (char_of ?n :: char) :: nat) = ?n"
    by (simp add: of_char_of m)
  show ?thesis
  proof (cases "65 \<le> ?n \<and> ?n \<le> 90")
    case True
    then have "lower_char (char_of ?n) = char_of (?n + 32)"
      by (simp add: lower_char_def oc m Let_def)
    moreover have "(char_of (?n + 32) = c) = (?n + 32 = of_char c)"
      using True by (simp add: char_of_eq_iff take_bit_eq_mod)
    moreover have "?n \<noteq> of_char c" using True assms(2) by auto
    ultimately show ?thesis
      using True assms(1) by (simp add: ci_equal_def byte_eq_iff unat_encode)
  next
    case False
    then have "lower_char (char_of ?n) = char_of ?n"
      by (simp add: lower_char_def oc m Let_def)
    moreover have "(char_of ?n = c) = (?n = of_char c)"
      using assms(1) by (simp add: char_of_eq_iff take_bit_eq_mod)
    ultimately show ?thesis
      using False assms(1) by (auto simp: ci_equal_def byte_eq_iff unat_encode)
  qed
qed

lemma map_eq_list_all2: "map f xs = ys \<longleftrightarrow> list_all2 (\<lambda>x y. f x = y) xs ys"
  by (induction xs arbitrary: ys) (auto simp: list_all2_Cons1)

lemma decode_all_ascii:
  "\<forall>b\<in>set bs. unat b < 128 \<Longrightarrow> decode_ascii_ignore bs = map (\<lambda>b. char_of (unat b)) bs"
  by (simp add: decode_ascii_ignore_def)

lemma decode_full_ascii:
  assumes "length bs \<le> length (decode_ascii_ignore bs)"
  shows "\<forall>b\<in>set bs. unat b < 128"
proof -
  have "length bs \<le> length (filter (\<lambda>b. unat b < 128) bs)"
    using assms by (simp add: decode_ascii_ignore_def)
  then have "filter (\<lambda>b. unat b < 128) bs = bs" by (rule filter_full)
  then show ?thesis by (metis (mono_tags, lifting) filter_id_conv)
qed

lemma ci_equal_all_ascii:
  assumes "list_all2 ci_equal bs ts"
  shows "\<forall>b\<in>set bs. unat b < 128"
proof
  fix b assume "b \<in> set bs"
  then obtain i where "i < length bs" "bs ! i = b" by (auto simp: in_set_conv_nth)
  with assms have "ci_equal b (ts ! i)" by (auto simp: list_all2_conv_all_nth)
  then show "unat b < 128" by (simp add: ci_equal_def)
qed

lemma lower_decode_iff:
  assumes "\<forall>b\<in>set bs. unat b < 128"
    and "\<forall>c\<in>set s. \<not> (65 \<le> (of_char c :: nat) \<and> (of_char c :: nat) \<le> 90)"
  shows "lower (decode_ascii_ignore bs) = s \<longleftrightarrow> list_all2 ci_equal bs (encode_ascii s)"
proof -
  have "lower (decode_ascii_ignore bs) = map (\<lambda>b. lower_char (char_of (unat b))) bs"
    by (simp add: decode_all_ascii [OF assms(1)] lower_def)
  then have "lower (decode_ascii_ignore bs) = s \<longleftrightarrow>
      list_all2 (\<lambda>b c. lower_char (char_of (unat b)) = c) bs s"
    by (simp add: map_eq_list_all2)
  also have "\<dots> \<longleftrightarrow> list_all2 (\<lambda>b c. ci_equal b (of_nat (of_char c))) bs s"
    using assms by (auto simp: list_all2_conv_all_nth lower_char_iff)
  also have "\<dots> \<longleftrightarrow> list_all2 ci_equal bs (encode_ascii s)"
    by (simp add: encode_ascii_def list_all2_map2)
  finally show ?thesis .
qed

lemma target_lowercase:
  "\<forall>c\<in>set ''default.xex''. \<not> (65 \<le> (of_char c :: nat) \<and> (of_char c :: nat) \<le> 90)"
  by simp

lemma name_matches_iff:
  assumes "length bs \<le> 11"
  shows "lower (decode_ascii_ignore bs) = ''default.xex'' \<longleftrightarrow> name_matches bs"
proof
  assume a: "lower (decode_ascii_ignore bs) = ''default.xex''"
  then have "length (lower (decode_ascii_ignore bs)) = 11" by simp
  then have "length bs \<le> length (decode_ascii_ignore bs)"
    using assms by (simp add: lower_def)
  then have "\<forall>b\<in>set bs. unat b < 128" by (rule decode_full_ascii)
  then show "name_matches bs"
    using a lower_decode_iff [OF _ target_lowercase] by (simp add: name_matches_def)
next
  assume a: "name_matches bs"
  then have "\<forall>b\<in>set bs. unat b < 128"
    unfolding name_matches_def by (rule ci_equal_all_ascii)
  then show "lower (decode_ascii_ignore bs) = ''default.xex''"
    using a lower_decode_iff [OF _ target_lowercase] by (simp add: name_matches_def)
qed

lemma name_matches_length: "name_matches bs \<Longrightarrow> length bs = 11"
  by (auto simp: name_matches_def encode_ascii_def dest: list_all2_lengthD)

lemma fst_read: "fst (read n s) = take n (drop (pos s) (content s))"
  by (simp add: read_def Let_def)

lemma content_read: "content (snd (read n s)) = content s"
  by (simp add: read_def Let_def)

lemma pos_read: "pos (snd (read n s)) = pos s + min (length (content s) - pos s) n"
  by (simp add: read_def Let_def)

lemma content_seek: "content (seek n s) = content s"
  by (simp add: seek_def)

lemma pos_seek: "pos (seek n s) = n"
  by (simp add: seek_def)

lemmas stream_simps = fst_read content_read pos_read content_seek pos_seek

lemma be_nat_single: "be_nat [x] = unat x"
  by (simp add: be_nat_def)

lemma unat_eq_11: "unat (x::byte) = 11 \<longleftrightarrow> x = 11"
proof
  assume "unat x = 11"
  then have "(of_nat (unat x) :: byte) = of_nat 11" by simp
  then show "x = 11" by simp
next
  assume "x = 11"
  then show "unat x = 11" by simp
qed

lemma entry_at_length: "entry_at rb i \<Longrightarrow> i + 13 \<le> length rb"
  by (auto simp: entry_at_def dest!: name_matches_length)

lemma scan_root_find:
  assumes "content b = rb"
  shows "fst (scan_root i k b) =
    (case find (entry_at rb) [i..<i + k] of
       None \<Rightarrow> Inl EntryNotFound
     | Some j \<Rightarrow> if j < 8 then Inl NegativeSeek else Inr (entry_fields rb j))"
  using assms
proof (induction k arbitrary: i b)
  case 0
  then show ?case by simp
next
  case (Suc k)
  define b1 where "b1 = snd (read 1 (seek i b))"
  define len where "len = fst (read 1 b1)"
  define b2 where "b2 = snd (read 1 b1)"
  define name where "name = fst (read 11 b2)"
  define b3 where "b3 = snd (read 11 b2)"
  have c: "content b1 = rb" "content b2 = rb" "content b3 = rb"
    using Suc.prems by (simp_all add: b1_def b2_def b3_def stream_simps)
  have p1: "pos b1 = i + min (length rb - i) 1"
    using Suc.prems by (simp add: b1_def stream_simps)
  have unfold: "scan_root i (Suc k) b =
      (if be_nat len = 11 then
         (if lower (decode_ascii_ignore name) = ''default.xex'' then
            (if i < 8 then (Inl NegativeSeek, b3)
             else
               (let (s1, b4) = read 4 (seek (i - 8) b3)
                in case unpack_I s1 of
                     Inl e \<Rightarrow> (Inl e, b4)
                   | Inr file_sector \<Rightarrow>
                       (let (s2, b5) = read 4 b4
                        in case unpack_I s2 of
                             Inl e \<Rightarrow> (Inl e, b5)
                           | Inr file_size \<Rightarrow> (Inr (file_sector, file_size), b5))))
          else scan_root (Suc i) k b3)
       else scan_root (Suc i) k b2)"
    by (simp add: b1_def len_def b2_def name_def b3_def split_beta Let_def)
  have cond: "(be_nat len = 11 \<and> lower (decode_ascii_ignore name) = ''default.xex'') \<longleftrightarrow> entry_at rb i"
  proof (cases "i + 1 < length rb")
    case True
    then have q1: "pos b1 = i + 1" using p1 by simp
    have l: "len = [rb ! (i + 1)]"
      using True by (simp add: len_def stream_simps c q1 take_Suc_conv_app_nth)
    have q2: "pos b2 = i + 2"
      using True by (simp add: b2_def stream_simps c q1)
    have n: "name = take 11 (drop (i + 2) rb)"
      by (simp add: name_def stream_simps c q2)
    have "be_nat len = 11 \<longleftrightarrow> rb ! (i + 1) = 11"
      by (simp add: l be_nat_single unat_eq_11)
    moreover have "lower (decode_ascii_ignore name) = ''default.xex'' \<longleftrightarrow> name_matches name"
      by (rule name_matches_iff) (simp add: n)
    ultimately show ?thesis using True by (simp add: entry_at_def n)
  next
    case False
    then have "drop (pos b1) rb = []" using p1 by simp
    then have "len = []" by (simp add: len_def stream_simps c)
    then have "be_nat len \<noteq> 11" by (simp add: be_nat_def)
    then show ?thesis using False by (simp add: entry_at_def)
  qed
  have upt: "[i..<i + Suc k] = i # [Suc i..<Suc i + k]"
    by (simp add: upt_conv_Cons del: upt_Suc)
  show ?case
  proof (cases "entry_at rb i")
    case False
    with cond have "be_nat len \<noteq> 11 \<or> lower (decode_ascii_ignore name) \<noteq> ''default.xex''"
      by blast
    then have "fst (scan_root i (Suc k) b) = fst (scan_root (Suc i) k b2) \<or>
        fst (scan_root i (Suc k) b) = fst (scan_root (Suc i) k b3)"
      unfolding unfold by auto
    then have "fst (scan_root i (Suc k) b) =
        (case find (entry_at rb) [Suc i..<Suc i + k] of
           None \<Rightarrow> Inl EntryNotFound
         | Some j \<Rightarrow> if j < 8 then Inl NegativeSeek else Inr (entry_fields rb j))"
      using Suc.IH [OF c(2)] Suc.IH [OF c(3)] by auto
    then show ?thesis using False by (simp only: upt find.simps if_False)
  next
    case True
    with cond have m: "be_nat len = 11" "lower (decode_ascii_ignore name) = ''default.xex''"
      by blast+
    have len: "i + 13 \<le> length rb" using True by (rule entry_at_length)
    have f: "find (entry_at rb) [i..<i + Suc k] = Some i"
      using True by (simp only: upt find.simps if_True)
    show ?thesis
    proof (cases "i < 8")
      case True
      then show ?thesis by (simp only: f unfold m) simp
    next
      case False
      then have ge: "8 \<le> i" by simp
      have l1: "length (take 4 (drop (i - 8) rb)) = 4" using len ge by simp
      have l2: "length (take 4 (drop (i - 4) rb)) = 4" using len ge by simp
      have pp: "i - 8 + 4 = i - 4" using ge by simp
      have "fst (scan_root i (Suc k) b) = Inr (entry_fields rb i)"
        using False l1 l2
        unfolding unfold
        by (simp add: m split_beta Let_def stream_simps c unpack_I_def entry_fields_def pp)
      then show ?thesis using False by (simp only: f) simp
    qed
  qed
qed

lemma find_upt_None: "find P [0..<n] = None \<longleftrightarrow> (\<forall>j<n. \<not> P j)"
  by (auto simp: find_None_iff)

lemma find_upt_Some:
  "find P [0..<n] = Some i \<longleftrightarrow> i < n \<and> P i \<and> (\<forall>j<i. \<not> P j)"
  by (auto simp: find_Some_iff)

text \<open>
  Claim C6, as the code has it. Over the buffered root directory the scan visits the
  positions \<open>0, 1, \<dots>\<close> below \<open>root_dir_size - 12\<close> in order; a position matches when
  the byte after it is 11 and the 11 bytes that follow are ASCII and equal
  \<^verbatim>\<open>default.xex\<close> up to letter case (this is what the comparison of the code amounts
  to, see \<open>name_matches_iff\<close>). When no position matches, the result is the failure
  of the entry not found. When the first match is at a position of at least 8, the
  result is the pair of little-endian words found 8 and 4 bytes before it.
\<close>

theorem directory_scan:
  "((\<forall>j < dir_size - 12. \<not> entry_at rb j) \<longrightarrow>
      fst (scan_root 0 (dir_size - 12) (open_stream rb)) = Inl EntryNotFound) \<and>
   (i < dir_size - 12 \<and> entry_at rb i \<and> (\<forall>j<i. \<not> entry_at rb j) \<and> 8 \<le> i \<longrightarrow>
      fst (scan_root 0 (dir_size - 12) (open_stream rb)) =
        Inr (le_nat (take 4 (drop (i - 8) rb)), le_nat (take 4 (drop (i - 4) rb))))"
proof -
  have c: "content (open_stream rb) = rb" by (simp add: open_stream_def)
  note s = scan_root_find [OF c, of 0 "dir_size - 12", simplified]
  show ?thesis
  proof (intro conjI impI)
    assume "\<forall>j < dir_size - 12. \<not> entry_at rb j"
    then have "find (entry_at rb) [0..<dir_size - 12] = None"
      unfolding find_upt_None by blast
    then show "fst (scan_root 0 (dir_size - 12) (open_stream rb)) = Inl EntryNotFound"
      by (simp add: s)
  next
    assume a: "i < dir_size - 12 \<and> entry_at rb i \<and> (\<forall>j<i. \<not> entry_at rb j) \<and> 8 \<le> i"
    then have "find (entry_at rb) [0..<dir_size - 12] = Some i"
      unfolding find_upt_Some by blast
    then show "fst (scan_root 0 (dir_size - 12) (open_stream rb)) =
        Inr (le_nat (take 4 (drop (i - 8) rb)), le_nat (take 4 (drop (i - 4) rb)))"
      using a by (simp add: s entry_fields_def)
  qed
qed

lemma pad7: "replicate 7 (0::byte) = [0, 0, 0, 0, 0, 0, 0]"
  by (simp add: numeral_eq_Suc)

lemma w6_region_bytes:
  "w6_region = [0, 0, 0, 0, 0x22, 0, 0, 0, 0, 1, 0, 0, 0x80, 0x0B,
     0x44, 0x65, 0x46, 0x61, 0x55, 0x6C, 0x54, 0x2E, 0x58, 0x65, 0x58, 0, 0, 0, 0, 0, 0, 0]"
  by (simp add: w6_region_def le32_def be32_def encode_ascii_def pad7)

lemma encode_target:
  "encode_ascii ''default.xex'' = [0x64, 0x65, 0x66, 0x61, 0x75, 0x6C, 0x74, 0x2E, 0x78, 0x65, 0x78]"
  by (simp add: encode_ascii_def)

lemmas entry_eval = entry_at_def name_matches_def encode_target ci_equal_def

lemma w6_first: "find (entry_at w6_region) [0..<32 - 12] = Some 12"
  by (simp add: upt_rec w6_region_bytes entry_eval)

text \<open>
  A region of 32 bytes with the name in mixed case at position 12, and a region of
  zeros.
\<close>

theorem directory_scan_witness:
  "(12::nat) < 32 - 12 \<and> entry_at w6_region 12 \<and> (8::nat) \<le> 12 \<and>
   fst (scan_root 0 (32 - 12) (open_stream w6_region)) = Inr (0x22, 0x100) \<and>
   find (entry_at w6_region) [0..<32 - 12] = Some 12 \<and>
   find (entry_at (replicate 25 0)) [0..<25 - 12] = None \<and>
   fst (scan_root 0 (25 - 12) (open_stream (replicate 25 0))) = Inl EntryNotFound"
proof -
  have f: "12 < (32::nat) - 12 \<and> entry_at w6_region 12 \<and> (\<forall>j<12. \<not> entry_at w6_region j)"
    using w6_first unfolding find_upt_Some by blast
  have v: "le_nat (take 4 (drop 4 w6_region)) = 0x22"
    "le_nat (take 4 (drop 8 w6_region)) = 0x100"
    by (simp_all add: w6_region_bytes)
  have z: "\<forall>j < 25 - 12. \<not> entry_at (replicate 25 0) j"
    by (simp add: entry_at_def)
  have n: "find (entry_at (replicate 25 0)) [0..<25 - 12] = None"
    using z unfolding find_upt_None by blast
  show ?thesis
    using directory_scan [of 32 w6_region 12] directory_scan [of 25 "replicate 25 0" 0] f z
    by (simp add: v) (use w6_first n in simp)
qed

lemma c6_early_bytes:
  "c6_early = [0, 0x0B, 0x64, 0x65, 0x66, 0x61, 0x75, 0x6C, 0x74, 0x2E, 0x78, 0x65, 0x78,
               0, 0, 0, 0, 0, 0, 0, 0, 0, 0, 0, 0]"
  by (simp add: c6_early_def encode_target pad12)

text \<open>
  Claim C6 as stated fails. In a region that starts with a byte, the length 11 and the
  name, the first match is at position 0: the code seeks to position \<open>-8\<close>, which
  \<^verbatim>\<open>BytesIO.seek\<close> refuses with \<^verbatim>\<open>ValueError\<close>. The scan neither returns two fields
  nor reports the entry as not found.
\<close>

theorem directory_scan_counterexample:
  "length c6_early = 25 \<and> entry_at c6_early 0 \<and>
   fst (scan_root 0 (25 - 12) (open_stream c6_early)) = Inl NegativeSeek"
proof -
  have e: "entry_at c6_early 0" by (simp add: c6_early_bytes entry_eval)
  have f: "find (entry_at c6_early) [0..<0 + (25 - 12)] = Some 0"
    using e by (simp add: upt_rec)
  have c: "content (open_stream c6_early) = c6_early" by (simp add: open_stream_def)
  show ?thesis
    using e by (simp only: scan_root_find [OF c] f) (simp add: c6_early_bytes)
qed

section \<open>The three probes\<close>

lemma reads_read:
  "reads (snd (read n s)) = reads s @ [(pos s, min (length (content s) - pos s) n)]"
  by (simp add: read_def Let_def)

lemma reads_seek: "reads (seek n s) = reads s"
  by (simp add: seek_def)

lemma decode_magic_iff:
  "(decode_ascii_ignore (take 20 (drop off c)) = MAGIC) = region_matches c off"
  by (simp add: region_matches_def)

lemma read_layout_ok:
  assumes "region_matches (content f) (0x10000 + base)" and "base + 0x1001C \<le> length (content f)"
  shows "fst (read_layout base f) = Inr (layout_at (content f) base)"
    and "map fst (reads (snd (read_layout base f))) =
           map fst (reads f) @ [0x10000 + base, 0x10014 + base, 0x10018 + base]"
proof -
  have m: "decode_ascii_ignore (take 20 (drop (0x10000 + base) (content f))) = MAGIC"
    using assms(1) by (simp add: region_matches_def)
  have l: "min (length (content f) - (0x10000 + base)) 20 = 20"
    "min (length (content f) - (0x10014 + base)) 4 = 4"
    "min (length (content f) - (0x10018 + base)) 4 = 4"
    using assms(2) by simp_all
  show "fst (read_layout base f) = Inr (layout_at (content f) base)"
    unfolding read_layout_def
    using l m by (simp add: split_beta Let_def stream_simps unpack_I_def layout_at_def add.commute)
  show "map fst (reads (snd (read_layout base f))) =
           map fst (reads f) @ [0x10000 + base, 0x10014 + base, 0x10018 + base]"
    unfolding read_layout_def
    using l by (simp add: split_beta Let_def stream_simps reads_read reads_seek unpack_I_def add.commute)
qed

lemma read_layout_short:
  assumes "region_matches (content f) (0x10000 + base)" and "length (content f) < base + 0x1001C"
  shows "fst (read_layout base f) = Inl StructError"
proof -
  have l: "min (length (content f) - (0x10000 + base)) 20 = 20"
    using region_matches_length [OF assms(1)] by simp
  have "length (content f) - (0x10014 + base) < 4 \<or> length (content f) - (0x10018 + base) < 4"
    using assms(2) by linarith
  then show ?thesis
    unfolding read_layout_def
    using l by (auto simp: split_beta Let_def stream_simps unpack_I_def add.commute min_def)
qed

lemma check_iso_probe:
  assumes "\<not> region_matches (content f) 0x10000"
  shows "check_iso f =
      (if region_matches (content f) (0x10000 + GDF) then
         read_layout GDF (snd (read 20 (seek (0x20 * 0x800 + GDF) (snd (read 20 (seek (0x20 * 0x800) f))))))
       else if region_matches (content f) (0x10000 + XGD3) then
         read_layout XGD3
           (snd (read 20 (seek (0x20 * 0x800 + XGD3)
              (snd (read 20 (seek (0x20 * 0x800 + GDF) (snd (read 20 (seek (0x20 * 0x800) f)))))))))
       else (Inl UnknownContainerFormat,
             snd (read 20 (seek (0x20 * 0x800 + XGD3)
               (snd (read 20 (seek (0x20 * 0x800 + GDF) (snd (read 20 (seek (0x20 * 0x800) f))))))))))"
  unfolding check_iso_def using assms
  by (simp add: split_beta Let_def stream_simps decode_magic_iff add.commute)

text \<open>
  Claim C2, as the code has it. For an image whose legacy region does not match, the
  probes go on in the order GDF, XGD3. If the GDF region matches and the image holds
  the 8 bytes after the identifier, \<^verbatim>\<open>check_iso\<close> returns the layout at base offset
  0xFD90000, whatever the XGD3 region holds. If the GDF region does not match, the
  XGD3 region does, and the image holds the 8 bytes after the identifier, it returns
  the layout at base offset 0x2080000. If neither matches, it returns \<^verbatim>\<open>False\<close> with
  the message of the unknown format. In each case the offsets read are the legacy
  offset first, the GDF offset second, the XGD3 offset third; and the volume size of
  the layout is the image size less the base offset.
\<close>

theorem container_detection:
  assumes "\<not> region_matches (content f) 0x10000"
  shows
    "(region_matches (content f) (0x10000 + GDF) \<and> GDF + 0x1001C \<le> length (content f) \<longrightarrow>
        fst (check_iso f) = Inr (layout_at (content f) GDF) \<and>
        map fst (reads (snd (check_iso f))) =
          map fst (reads f) @ [0x10000, 0x10000 + GDF, 0x10000 + GDF, 0x10014 + GDF, 0x10018 + GDF]) \<and>
     (\<not> region_matches (content f) (0x10000 + GDF) \<and>
      region_matches (content f) (0x10000 + XGD3) \<and> XGD3 + 0x1001C \<le> length (content f) \<longrightarrow>
        fst (check_iso f) = Inr (layout_at (content f) XGD3) \<and>
        map fst (reads (snd (check_iso f))) =
          map fst (reads f) @ [0x10000, 0x10000 + GDF, 0x10000 + XGD3,
                               0x10000 + XGD3, 0x10014 + XGD3, 0x10018 + XGD3]) \<and>
     (\<not> region_matches (content f) (0x10000 + GDF) \<and>
      \<not> region_matches (content f) (0x10000 + XGD3) \<longrightarrow>
        fst (check_iso f) = Inl UnknownContainerFormat \<and>
        map fst (reads (snd (check_iso f))) =
          map fst (reads f) @ [0x10000, 0x10000 + GDF, 0x10000 + XGD3])"
proof -
  define f1 where "f1 = snd (read 20 (seek (0x20 * 0x800) f))"
  define f2 where "f2 = snd (read 20 (seek (0x20 * 0x800 + GDF) f1))"
  define f3 where "f3 = snd (read 20 (seek (0x20 * 0x800 + XGD3) f2))"
  have c: "content f1 = content f" "content f2 = content f" "content f3 = content f"
    by (simp_all add: f1_def f2_def f3_def stream_simps)
  have r: "map fst (reads f1) = map fst (reads f) @ [0x10000]"
    "map fst (reads f2) = map fst (reads f) @ [0x10000, 0x10000 + GDF]"
    "map fst (reads f3) = map fst (reads f) @ [0x10000, 0x10000 + GDF, 0x10000 + XGD3]"
    by (simp_all add: f1_def f2_def f3_def stream_simps reads_read reads_seek)
  have unfold: "check_iso f =
      (if region_matches (content f) (0x10000 + GDF) then read_layout GDF f2
       else if region_matches (content f) (0x10000 + XGD3) then read_layout XGD3 f3
       else (Inl UnknownContainerFormat, f3))"
    using check_iso_probe [OF assms] by (simp add: f1_def f2_def f3_def)
  show ?thesis
  proof (intro conjI impI)
    assume a: "region_matches (content f) (0x10000 + GDF) \<and> GDF + 0x1001C \<le> length (content f)"
    then have m: "region_matches (content f2) (0x10000 + GDF)"
      and l: "GDF + 0x1001C \<le> length (content f2)" by (simp_all add: c)
    show "fst (check_iso f) = Inr (layout_at (content f) GDF)"
      using a read_layout_ok(1) [OF m l] by (simp add: unfold c)
    show "map fst (reads (snd (check_iso f))) =
          map fst (reads f) @ [0x10000, 0x10000 + GDF, 0x10000 + GDF, 0x10014 + GDF, 0x10018 + GDF]"
      using a read_layout_ok(2) [OF m l] by (simp add: unfold r)
  next
    assume a: "\<not> region_matches (content f) (0x10000 + GDF) \<and>
      region_matches (content f) (0x10000 + XGD3) \<and> XGD3 + 0x1001C \<le> length (content f)"
    then have m: "region_matches (content f3) (0x10000 + XGD3)"
      and l: "XGD3 + 0x1001C \<le> length (content f3)" by (simp_all add: c)
    show "fst (check_iso f) = Inr (layout_at (content f) XGD3)"
      using a read_layout_ok(1) [OF m l] by (simp add: unfold c)
    show "map fst (reads (snd (check_iso f))) =
          map fst (reads f) @ [0x10000, 0x10000 + GDF, 0x10000 + XGD3,
                               0x10000 + XGD3, 0x10014 + XGD3, 0x10018 + XGD3]"
      using a read_layout_ok(2) [OF m l] by (simp add: unfold r)
  next
    assume a: "\<not> region_matches (content f) (0x10000 + GDF) \<and>
      \<not> region_matches (content f) (0x10000 + XGD3)"
    show "fst (check_iso f) = Inl UnknownContainerFormat"
      using a by (simp add: unfold)
    show "map fst (reads (snd (check_iso f))) =
          map fst (reads f) @ [0x10000, 0x10000 + GDF, 0x10000 + XGD3]"
      using a by (simp add: unfold r)
  qed
qed

lemma pad20: "replicate 20 (0::byte) = [0, 0, 0, 0, 0, 0, 0, 0, 0, 0, 0, 0, 0, 0, 0, 0, 0, 0, 0, 0]"
  by (simp add: numeral_eq_Suc)

lemma mk_iso_bytes:
  "mk_iso base file_size data =
     replicate (base + 0x10000) 0 @
     ([77, 73, 67, 82, 79, 83, 79, 70, 84, 42, 88, 66, 79, 88, 42, 77, 69, 68, 73, 65,
       0x21, 0, 0, 0, 0, 8, 0, 0] @
      (replicate 0x7E4 0 @
       (([0, 0, 0, 0, 0x22, 0, 0, 0] @ le32 file_size @
         [0x80, 0x0B, 0x64, 0x65, 0x66, 0x61, 0x75, 0x6C, 0x74, 0x2E, 0x78, 0x65, 0x78]) @
        (replicate 0x7E7 0 @ data))))"
  by (simp add: mk_iso_def encode_MAGIC dir_entry_def encode_target) (simp add: le32_def be32_def)

lemma length_le32: "length (le32 v) = 4"
  by (simp add: le32_def be32_def)

lemma mk_iso_length: "length (mk_iso base file_size data) = base + 0x11000 + length data"
  by (simp add: mk_iso_bytes length_le32)

lemma mk_iso_regions:
  "\<not> region_matches (mk_iso GDF n data) 0x10000"
  "region_matches (mk_iso GDF n data) (0x10000 + GDF)"
  "\<not> region_matches (mk_iso XGD3 n data) 0x10000"
  "region_matches (mk_iso XGD3 n data) (0x10000 + XGD3)"
  by (simp_all add: region_matches_iff mk_iso_bytes encode_MAGIC GDF_def XGD3_def pad20)

lemma mk_iso_xgd3_no_gdf:
  "length data \<le> 0x100000 \<Longrightarrow> \<not> region_matches (mk_iso XGD3 n data) (0x10000 + GDF)"
  by (simp add: region_matches_iff mk_iso_bytes encode_MAGIC GDF_def XGD3_def length_le32)

lemma mk_iso_layout:
  "layout_at (mk_iso base n data) base =
     \<lparr>sector_size = 0x800, root_offset = base, iso_identifier = MAGIC,
      root_dir_sector = 0x21, root_dir_size = 0x800,
      image_size = base + 0x11000 + length data,
      volume_size = 0x11000 + int (length data),
      volume_sectors = (0x11000 + of_nat (length data)) / 2048\<rparr>"
  by (simp add: layout_at_def mk_iso_length) (simp add: mk_iso_bytes)

text \<open>An image for each base offset, and the empty image.\<close>

theorem container_detection_witness:
  "\<not> region_matches w2_gdf 0x10000 \<and> region_matches w2_gdf (0x10000 + GDF) \<and>
   length w2_gdf = 0xFDA1000 \<and>
   fst (check_iso (open_stream w2_gdf)) =
     Inr \<lparr>sector_size = 0x800, root_offset = 0xFD90000, iso_identifier = MAGIC,
          root_dir_sector = 0x21, root_dir_size = 0x800, image_size = 0xFDA1000,
          volume_size = 0x11000, volume_sectors = 34\<rparr> \<and>
   \<not> region_matches w2_xgd3 0x10000 \<and> \<not> region_matches w2_xgd3 (0x10000 + GDF) \<and>
   region_matches w2_xgd3 (0x10000 + XGD3) \<and> length w2_xgd3 = 0x2091000 \<and>
   fst (check_iso (open_stream w2_xgd3)) =
     Inr \<lparr>sector_size = 0x800, root_offset = 0x2080000, iso_identifier = MAGIC,
          root_dir_sector = 0x21, root_dir_size = 0x800, image_size = 0x2091000,
          volume_size = 0x11000, volume_sectors = 34\<rparr> \<and>
   \<not> region_matches [] 0x10000 \<and> \<not> region_matches [] (0x10000 + GDF) \<and>
   \<not> region_matches [] (0x10000 + XGD3) \<and>
   check_iso (open_stream []) =
     (Inl UnknownContainerFormat,
      \<lparr>content = [], pos = 0x2090000, reads = [(0x10000, 0), (0xFDA0000, 0), (0x2090000, 0)]\<rparr>)"
proof -
  have g: "\<not> region_matches (content (open_stream w2_gdf)) 0x10000"
    "region_matches w2_gdf (0x10000 + GDF)" "length w2_gdf = 0xFDA1000"
    by (simp_all add: open_stream_def w2_gdf_def mk_iso_regions)
      (simp add: mk_iso_length GDF_def)
  have x: "\<not> region_matches (content (open_stream w2_xgd3)) 0x10000"
    "\<not> region_matches w2_xgd3 (0x10000 + GDF)"
    "region_matches w2_xgd3 (0x10000 + XGD3)" "length w2_xgd3 = 0x2091000"
    by (simp_all add: open_stream_def w2_xgd3_def mk_iso_regions mk_iso_xgd3_no_gdf)
      (simp add: mk_iso_length XGD3_def)
  have e: "\<not> region_matches (content (open_stream [])) 0x10000"
    "\<not> region_matches [] (0x10000 + GDF)" "\<not> region_matches [] (0x10000 + XGD3)"
    by (simp_all add: open_stream_def region_matches_iff encode_MAGIC)
  have lg: "layout_at w2_gdf GDF =
      \<lparr>sector_size = 0x800, root_offset = 0xFD90000, iso_identifier = MAGIC,
       root_dir_sector = 0x21, root_dir_size = 0x800, image_size = 0xFDA1000,
       volume_size = 0x11000, volume_sectors = 34\<rparr>"
    by (simp add: w2_gdf_def mk_iso_layout) (simp add: GDF_def)
  have lx: "layout_at w2_xgd3 XGD3 =
      \<lparr>sector_size = 0x800, root_offset = 0x2080000, iso_identifier = MAGIC,
       root_dir_sector = 0x21, root_dir_size = 0x800, image_size = 0x2091000,
       volume_size = 0x11000, volume_sectors = 34\<rparr>"
    by (simp add: w2_xgd3_def mk_iso_layout) (simp add: XGD3_def)
  have u: "check_iso (open_stream []) =
     (Inl UnknownContainerFormat,
      \<lparr>content = [], pos = 0x2090000, reads = [(0x10000, 0), (0xFDA0000, 0), (0x2090000, 0)]\<rparr>)"
    using e by (simp add: check_iso_probe [OF e(1)])
      (simp add: open_stream_def read_def seek_def GDF_def XGD3_def)
  show ?thesis
    using container_detection [OF g(1)] container_detection [OF x(1)] container_detection [OF e(1)]
      g x e u
    by (simp add: open_stream_def lg lx)
qed

text \<open>
  Claim C2 as stated fails. An image that ends with the identifier at the XGD3 offset
  matches there only, and \<^verbatim>\<open>check_iso\<close> does not return a base offset: the read of
  \<^verbatim>\<open>root_dir_sector\<close> returns no bytes and \<^verbatim>\<open>unpack\<close> raises \<^verbatim>\<open>struct.error\<close>.
\<close>

theorem container_detection_counterexample:
  "\<not> region_matches c2_truncated 0x10000 \<and> \<not> region_matches c2_truncated (0x10000 + GDF) \<and>
   region_matches c2_truncated (0x10000 + XGD3) \<and>
   fst (check_iso (open_stream c2_truncated)) = Inl StructError"
proof -
  have r: "\<not> region_matches c2_truncated 0x10000"
    "\<not> region_matches c2_truncated (0x10000 + GDF)"
    "region_matches c2_truncated (0x10000 + XGD3)"
    by (simp_all add: region_matches_iff c2_truncated_def encode_MAGIC GDF_def XGD3_def pad20)
  have l: "length c2_truncated = 0x2090014"
    by (simp add: c2_truncated_def encode_MAGIC XGD3_def)
  have n: "\<not> region_matches (content (open_stream c2_truncated)) 0x10000"
    using r(1) by (simp add: open_stream_def)
  let ?f3 = "snd (read 20 (seek (0x20 * 0x800 + XGD3)
      (snd (read 20 (seek (0x20 * 0x800 + GDF)
         (snd (read 20 (seek (0x20 * 0x800) (open_stream c2_truncated)))))))))"
  have c: "content ?f3 = c2_truncated" by (simp add: stream_simps open_stream_def)
  have "fst (read_layout XGD3 ?f3) = Inl StructError"
    by (rule read_layout_short) (simp_all only: c r l, simp add: XGD3_def)
  then show ?thesis
    using r check_iso_probe [OF n] by (simp add: open_stream_def)
qed

section \<open>Extraction, and the whole pipeline\<close>

lemma unat_of_nat_byte: "unat (of_nat x :: byte) = x mod 256"
  by (simp add: unat_of_nat)

lemma be_nat_be32:
  assumes "v < 2 ^ 32"
  shows "be_nat (be32 v) = v"
proof -
  define a where "a = v div 256"
  define b where "b = a div 256"
  define c where "c = b div 256"
  have d: "v div 256 = a" "v div 65536 = b" "v div 16777216 = c"
    by (simp_all add: a_def b_def c_def div_mult2_eq)
  have "c < 256" using assms unfolding d(3) [symmetric] by simp
  then have m: "c mod 256 = c" by simp
  define r0 where "r0 = v mod 256"
  define r1 where "r1 = a mod 256"
  define r2 where "r2 = b mod 256"
  have e: "v = r0 + 256 * a" "a = r1 + 256 * b" "b = r2 + 256 * c"
    by (simp_all add: a_def b_def c_def r0_def r1_def r2_def)
  have "r0 + 256 * (r1 + 256 * (r2 + 256 * c)) = v"
    using e by simp
  then have "v mod 256 + 256 * (a mod 256 + 256 * (b mod 256 + 256 * c)) = v"
    by (simp only: r0_def r1_def r2_def)
  then show ?thesis
    by (simp add: be_nat_def be32_def unat_of_nat_byte d m)
qed

lemma hexdigit_char:
  assumes "d < 16"
  shows "upper (decode_ascii_ignore [hexdigit d]) = [HEX ! d]"
proof -
  have "list_all (\<lambda>d. upper (decode_ascii_ignore [hexdigit d]) = [HEX ! d]) [0..<16]"
    by (simp add: upt_rec hexdigit_def decode_ascii_ignore_def upper_def upper_char_def HEX_def
        char_of_eq_iff)
  then show ?thesis
    using assms by (auto simp: list_all_iff)
qed

lemma decode_append: "decode_ascii_ignore (xs @ ys) = decode_ascii_ignore xs @ decode_ascii_ignore ys"
  by (simp add: decode_ascii_ignore_def)

lemma upper_append: "upper (xs @ ys) = upper xs @ upper ys"
  by (simp add: upper_def)

lemma hex_id_Cons: "hex_id (b # bs) = [HEX ! (unat b div 16), HEX ! (unat b mod 16)] @ hex_id bs"
proof -
  have d: "unat b div 16 < 16" "unat b mod 16 < 16"
    using unat_byte_less [of b] by simp_all
  have "hex_id (b # bs) =
      upper (decode_ascii_ignore [hexdigit (unat b div 16)]) @
      upper (decode_ascii_ignore [hexdigit (unat b mod 16)]) @ hex_id bs"
    using decode_append [of "[hexdigit (unat b div 16)]" "hexdigit (unat b mod 16) # hexlify bs"]
      decode_append [of "[hexdigit (unat b mod 16)]" "hexlify bs"]
    by (simp add: hex_id_def hexlify_def upper_append)
  then show ?thesis by (simp add: hexdigit_char d)
qed

lemma hex_id_upper: "hex_id bs = hex_upper bs"
  by (induction bs) (simp_all add: hex_id_Cons hex_upper_def, simp add: hex_id_def hexlify_def decode_ascii_ignore_def upper_def)

lemma le_nat_le32: "v < 2 ^ 32 \<Longrightarrow> le_nat (le32 v) = v"
  using be_nat_be32 [of v] by (simp add: le32_def be_nat_def)

lemma extract_defaultxex_found:
  assumes "fst (scan_root 0 (root_dir_size lay - 12)
             (open_stream (take (root_dir_size lay)
                (drop (root_dir_sector lay * sector_size lay + root_offset lay) (content f))))) =
           Inr (file_sector, file_size)"
  shows "fst (extract_defaultxex f lay) =
           Inr (open_stream (take file_size
                  (drop (root_offset lay + file_sector * sector_size lay) (content f))))"
    and "reads (snd (extract_defaultxex f lay)) =
           reads f @
           [(root_dir_sector lay * sector_size lay + root_offset lay,
             min (length (content f) - (root_dir_sector lay * sector_size lay + root_offset lay))
                 (root_dir_size lay)),
            (root_offset lay + file_sector * sector_size lay,
             min (length (content f) - (root_offset lay + file_sector * sector_size lay)) file_size)]"
  unfolding extract_defaultxex_def using assms
  by (simp_all add: split_beta Let_def stream_simps reads_read reads_seek)

lemma extract_defaultxex_failed:
  assumes "fst (scan_root 0 (root_dir_size lay - 12)
             (open_stream (take (root_dir_size lay)
                (drop (root_dir_sector lay * sector_size lay + root_offset lay) (content f))))) =
           Inl e"
  shows "fst (extract_defaultxex f lay) = Inl e"
  unfolding extract_defaultxex_def using assms
  by (simp add: split_beta Let_def stream_simps)


lemma mk_iso_dir:
  "take 2048 (drop (67584 + base) (mk_iso base n data)) =
     ([0, 0, 0, 0, 0x22, 0, 0, 0] @ le32 n @
      [0x80, 0x0B, 0x64, 0x65, 0x66, 0x61, 0x75, 0x6C, 0x74, 0x2E, 0x78, 0x65, 0x78]) @
     replicate 0x7E7 0"
  by (simp add: mk_iso_bytes length_le32)

lemma mk_iso_data: "drop (base + 0x22 * 0x800) (mk_iso base n data) = data"
  by (simp add: mk_iso_bytes length_le32)

lemma dir_first_13:
  "find (entry_at (([0, 0, 0, 0, 0x22, 0, 0, 0] @ le32 n @
      [0x80, 0x0B, 0x64, 0x65, 0x66, 0x61, 0x75, 0x6C, 0x74, 0x2E, 0x78, 0x65, 0x78]) @
     replicate 0x7E7 0)) [0..<13] = Some 12"
  by (simp add: upt_rec le32_def be32_def entry_eval)

lemma dir_first:
  "find (entry_at (([0, 0, 0, 0, 0x22, 0, 0, 0] @ le32 n @
      [0x80, 0x0B, 0x64, 0x65, 0x66, 0x61, 0x75, 0x6C, 0x74, 0x2E, 0x78, 0x65, 0x78]) @
     replicate 0x7E7 0)) [0..<0x800 - 12] = Some 12"
  using dir_first_13 [of n] unfolding find_upt_Some by simp

lemma dir_scan:
  assumes "n < 2 ^ 32"
  shows "fst (scan_root 0 (0x800 - 12) (open_stream (([0, 0, 0, 0, 0x22, 0, 0, 0] @ le32 n @
      [0x80, 0x0B, 0x64, 0x65, 0x66, 0x61, 0x75, 0x6C, 0x74, 0x2E, 0x78, 0x65, 0x78]) @
     replicate 0x7E7 0))) = Inr (0x22, n)"
proof -
  let ?rb = "([0, 0, 0, 0, 0x22, 0, 0, 0] @ le32 n @
      [0x80, 0x0B, 0x64, 0x65, 0x66, 0x61, 0x75, 0x6C, 0x74, 0x2E, 0x78, 0x65, 0x78]) @
     replicate 0x7E7 0"
  have c: "content (open_stream ?rb) = ?rb" by (simp add: open_stream_def)
  have f: "find (entry_at ?rb) [0..<0 + (0x800 - 12)] = Some 12"
    using dir_first [of n] by simp
  have e: "entry_fields ?rb 12 = (0x22, n)"
    using le_nat_le32 [OF assms] by (simp add: entry_fields_def length_le32)
  show ?thesis
    by (simp only: scan_root_find [OF c] f) (use e in simp)
qed

lemma content_read_layout: "content (snd (read_layout base f)) = content f"
  unfolding read_layout_def
  by (simp add: split_beta Let_def stream_simps split: sum.splits)

lemma content_check_iso: "content (snd (check_iso f)) = content f"
  unfolding check_iso_def
  by (simp add: split_beta Let_def stream_simps content_read_layout)

lemma check_iso_mk_iso:
  assumes "base = GDF \<or> base = XGD3" and "length data \<le> 0x100000"
  shows "fst (check_iso (open_stream (mk_iso base n data))) = Inr (layout_at (mk_iso base n data) base)"
proof -
  let ?img = "mk_iso base n data"
  let ?f = "open_stream ?img"
  have c: "content ?f = ?img" by (simp add: open_stream_def)
  from assms(1) show ?thesis
  proof
    assume b: "base = GDF"
    have n: "\<not> region_matches (content ?f) 0x10000" and m: "region_matches (content ?f) (0x10000 + GDF)"
      by (simp_all add: open_stream_def b mk_iso_regions)
    let ?f2 = "snd (read 20 (seek (0x20 * 0x800 + GDF) (snd (read 20 (seek (0x20 * 0x800) ?f)))))"
    have m2: "region_matches (content ?f2) (0x10000 + GDF)"
      using m by (simp add: stream_simps)
    have l2: "GDF + 0x1001C \<le> length (content ?f2)"
      by (simp add: stream_simps open_stream_def mk_iso_length b)
    show ?thesis
      using read_layout_ok(1) [OF m2 l2] m check_iso_probe [OF n]
      by (simp add: stream_simps open_stream_def b)
  next
    assume b: "base = XGD3"
    have n: "\<not> region_matches (content ?f) 0x10000"
      and g: "\<not> region_matches (content ?f) (0x10000 + GDF)"
      and m: "region_matches (content ?f) (0x10000 + XGD3)"
      using assms(2) by (simp_all add: open_stream_def b mk_iso_regions mk_iso_xgd3_no_gdf)
    let ?f3 = "snd (read 20 (seek (0x20 * 0x800 + XGD3)
        (snd (read 20 (seek (0x20 * 0x800 + GDF) (snd (read 20 (seek (0x20 * 0x800) ?f))))))))"
    have m3: "region_matches (content ?f3) (0x10000 + XGD3)"
      using m by (simp add: stream_simps)
    have l3: "XGD3 + 0x1001C \<le> length (content ?f3)"
      by (simp add: stream_simps open_stream_def mk_iso_length b)
    show ?thesis
      using read_layout_ok(1) [OF m3 l3] m g check_iso_probe [OF n]
      by (simp add: stream_simps open_stream_def b)
  qed
qed

lemma extract_mk_iso:
  assumes "content f = mk_iso base n data" and "n < 2 ^ 32"
  shows "fst (extract_defaultxex f (layout_at (mk_iso base n data) base)) =
           Inr (open_stream (take n data))"
proof -
  let ?lay = "layout_at (mk_iso base n data) base"
  have s: "fst (scan_root 0 (root_dir_size ?lay - 12)
             (open_stream (take (root_dir_size ?lay)
                (drop (root_dir_sector ?lay * sector_size ?lay + root_offset ?lay) (content f))))) =
           Inr (0x22, n)"
    using dir_scan [OF assms(2)] by (simp add: mk_iso_layout assms(1) mk_iso_dir)
  show ?thesis
    using extract_defaultxex_found(1) [OF s] mk_iso_data [of base n data]
    by (simp add: mk_iso_layout assms(1))
qed

lemma parse_mk_iso:
  assumes "base = GDF \<or> base = XGD3" and "length data \<le> 0x100000" and "n < 2 ^ 32"
  shows "parse L g enc name (Some (mk_iso base n data)) =
    (case fst (extract_xex_info g (open_stream (take n data))) of
       Inl e \<Rightarrow> if raised e \<and> \<not> enc name then Inl UnicodeEncodeError else Inr None
     | Inr x \<Rightarrow> Inr (Some \<lparr>layout = layout_at (mk_iso base n data) base, info = x,
                      game_name = (case L (title_id x) of None \<Rightarrow> ''Unknown'' | Some t \<Rightarrow> t)\<rparr>))"
proof -
  let ?img = "mk_iso base n data"
  obtain r f1 where c: "check_iso (open_stream ?img) = (r, f1)" by (cases "check_iso (open_stream ?img)")
  have r: "r = Inr (layout_at ?img base)"
    using check_iso_mk_iso [OF assms(1,2), of n] c by simp
  have "content f1 = ?img"
    using content_check_iso [of "open_stream ?img"] c by (simp add: open_stream_def)
  then have e: "fst (extract_defaultxex f1 (layout_at ?img base)) = Inr (open_stream (take n data))"
    using assms(3) by (rule extract_mk_iso)
  obtain f2 where e2: "extract_defaultxex f1 (layout_at ?img base) = (Inr (open_stream (take n data)), f2)"
    using e by (cases "extract_defaultxex f1 (layout_at ?img base)") simp
  show ?thesis
    by (simp add: parse_def parse_body_def c r e2 split: sum.splits)
qed

text \<open>
  What \<^verbatim>\<open>parse\<close> gives, stage by stage. A stage that returns \<^verbatim>\<open>False\<close> leads to
  \<^verbatim>\<open>None\<close> at once. A stage that raises, and \<^verbatim>\<open>open\<close> when it raises, lead to the
  handler: to \<^verbatim>\<open>None\<close> when its message can be printed, and to an exception that
  leaves \<^verbatim>\<open>parse\<close> when it cannot. When every stage returns a value the result is the
  record of every field of the layout, every field of the execution info, and
  \<^verbatim>\<open>game_name\<close>, the entry of the lookup table under the title id or \<^verbatim>\<open>Unknown\<close>.
\<close>

lemma parse_cases:
  "parse game_lookup getsizeof stdout_encodes filename file =
     (case file of
        None \<Rightarrow> if stdout_encodes filename then Inr None else Inl UnicodeEncodeError
      | Some bytes \<Rightarrow>
          (case fst (check_iso (open_stream bytes)) of
             Inl e \<Rightarrow> if raised e \<and> \<not> stdout_encodes filename then Inl UnicodeEncodeError
                      else Inr None
           | Inr iso_info \<Rightarrow>
               (case fst (extract_defaultxex (snd (check_iso (open_stream bytes))) iso_info) of
                  Inl e \<Rightarrow> if raised e \<and> \<not> stdout_encodes filename then Inl UnicodeEncodeError
                           else Inr None
                | Inr xex_buffer \<Rightarrow>
                    (case fst (extract_xex_info getsizeof xex_buffer) of
                       Inl e \<Rightarrow> if raised e \<and> \<not> stdout_encodes filename then Inl UnicodeEncodeError
                                else Inr None
                     | Inr xex_info \<Rightarrow>
                         Inr (Some \<lparr>layout = iso_info, info = xex_info,
                                    game_name = (case game_lookup (title_id xex_info) of
                                                   None \<Rightarrow> ''Unknown''
                                                 | Some name \<Rightarrow> name)\<rparr>)))))"
  by (simp add: parse_def parse_body_def split_beta split: option.splits sum.splits prod.splits)

text \<open>With a file name that standard output can encode, nothing leaves \<^verbatim>\<open>parse\<close>.\<close>

lemma parse_contained:
  assumes "stdout_encodes filename"
  shows "\<exists>r. parse game_lookup getsizeof stdout_encodes filename file = Inr r"
  using assms
  by (simp add: parse_def parse_body_def split_beta split: option.splits sum.splits prod.splits)



lemma pad32: "replicate 32 (0::byte) =
    [0, 0, 0, 0, 0, 0, 0, 0, 0, 0, 0, 0, 0, 0, 0, 0, 0, 0, 0, 0, 0, 0, 0, 0, 0, 0, 0, 0, 0, 0, 0, 0]"
  by (simp add: numeral_eq_Suc)

lemma length_be32: "length (be32 v) = 4"
  by (simp add: be32_def)

lemma mk_xex_bytes:
  "mk_xex mid ver bver tid plat etype dnum dcnt =
     [88, 69, 88, 50, 0, 0, 0, 0, 0, 0, 1, 0, 0, 0, 0, 0,
      0, 0, 0, 32, 0, 0, 0, 1, 0, 4, 0, 6, 0, 0, 0, 64,
      0, 0, 0, 0, 0, 0, 0, 0, 0, 0, 0, 0, 0, 0, 0, 0,
      0, 0, 0, 0, 0, 0, 0, 0, 0, 0, 0, 0, 0, 0, 0, 0] @
     (mid @ (be32 ver @ (be32 bver @ (tid @ ([plat, etype, dnum, dcnt] @ replicate 172 0)))))"
  by (simp add: mk_xex_def xex_header_def encode_XEX2 execution_info_bytes_def pad32)
    (simp add: be32_def)

lemma u32be_at_be32: "v < 2 ^ 32 \<Longrightarrow> u32be_at (be32 v @ rest) 0 = v"
  using be_nat_be32 [of v] by (simp add: u32be_at_def length_be32)

lemma mk_xex_info:
  assumes "length mid = 4" and "length tid = 4" and "ver < 2 ^ 32" and "bver < 2 ^ 32"
    and "0x100 \<le> g (mk_xex mid ver bver tid plat etype dnum dcnt)"
  shows "fst (extract_xex_info g (open_stream (mk_xex mid ver bver tid plat etype dnum dcnt))) =
    Inr \<lparr>media_id = hex_id mid, version = ver, base_version = bver, title_id = hex_id tid,
         platform = unat plat, executable_type = unat etype,
         disc_number = unat dnum, disc_count = unat dcnt\<rparr>"
proof -
  let ?buf = "mk_xex mid ver bver tid plat etype dnum dcnt"
  have len: "length ?buf = 256"
    using assms(1,2) by (simp add: mk_xex_bytes length_be32)
  have f: "decode_ascii_ignore (take 4 ?buf) = ''XEX2''" "code_offset_of ?buf = 0x100"
    "cert_offset_of ?buf = 0x20" "entry_count_of ?buf = 1"
    by (simp_all add: mk_xex_bytes field_defs decode_XEX2)
  have v: "passes_validation g ?buf"
    using assms(5) by (simp add: passes_validation_def f len)
  have t: "table_records ?buf = [(0x00040006, 0x40)]"
    by (simp add: table_records_def f records_from_def) (simp add: mk_xex_bytes field_defs)
  have b: "24 + 8 * entry_count_of ?buf \<le> length ?buf" by (simp add: f len)
  have a: "last_match (table_records ?buf) = Some 0x40"
    by (simp add: t last_match_def is_execution_info_def)
  have d: "0x40 + 20 \<le> length ?buf" by (simp add: len)
  have r: "extract_xex_info g (open_stream ?buf) =
      decode_execution_info 0x40
        \<lparr>content = ?buf, pos = 24 + 8 * entry_count_of ?buf,
         reads = header_reads @ record_reads 24 (entry_count_of ?buf)\<rparr>"
    by (simp add: extract_xex_info_valid [OF v b] a)
  have x: "take 4 (drop 0x40 ?buf) = mid" "take 4 (drop 0x4C ?buf) = tid"
    "u32be_at ?buf 0x44 = ver" "u32be_at ?buf 0x48 = bver"
    "?buf ! 0x50 = plat" "?buf ! 0x51 = etype" "?buf ! 0x52 = dnum" "?buf ! 0x53 = dcnt"
    using assms(1,2) be_nat_be32 [OF assms(3)] be_nat_be32 [OF assms(4)]
    by (simp_all add: mk_xex_bytes u32be_at_def length_be32 nth_append)
  show ?thesis
    using x by (simp add: r decode_execution_info_within [OF d])
qed

lemma mk_xex_length:
  "length mid = 4 \<Longrightarrow> length tid = 4 \<Longrightarrow>
   length (mk_xex mid ver bver tid plat etype dnum dcnt) = 256"
  by (simp add: mk_xex_bytes length_be32)

lemma scenario_info:
  assumes "passes_validation g buf" and "table_records buf = [(0x00040006, 0x40)]"
    and "0x54 \<le> length buf"
  shows "fst (extract_xex_info g (open_stream buf)) =
    Inr \<lparr>media_id = hex_id (take 4 (drop 0x40 buf)), version = u32be_at buf 0x44,
         base_version = u32be_at buf 0x48, title_id = hex_id (take 4 (drop 0x4C buf)),
         platform = unat (buf ! 0x50), executable_type = unat (buf ! 0x51),
         disc_number = unat (buf ! 0x52), disc_count = unat (buf ! 0x53)\<rparr>"
proof -
  have "length (table_records buf) = entry_count_of buf"
    by (simp add: table_records_def records_from_def)
  then have n: "entry_count_of buf = 1" by (simp add: assms(2))
  have b: "24 + 8 * entry_count_of buf \<le> length buf" using assms(3) by (simp add: n)
  have a: "last_match (table_records buf) = Some 0x40"
    by (simp add: assms(2) last_match_def is_execution_info_def)
  have d: "0x40 + 20 \<le> length buf" using assms(3) by simp
  show ?thesis
    by (simp add: extract_xex_info_valid [OF assms(1) b] a decode_execution_info_within [OF d])
qed

lemma title_4D5307D1: "hex_id [0x4D, 0x53, 0x07, 0xD1] = ''4D5307D1''"
  by (simp add: hex_defs)

lemma check_iso_container:
  assumes "container_at img base"
  shows "fst (check_iso (open_stream img)) = Inr (layout_at img base)"
proof -
  let ?f = "open_stream img"
  have c: "content ?f = img" by (simp add: open_stream_def)
  have n: "\<not> region_matches (content ?f) 0x10000"
    and l: "base + 0x1001C \<le> length img"
    and b: "base = GDF \<and> region_matches img (0x10000 + GDF) \<or>
            base = XGD3 \<and> \<not> region_matches img (0x10000 + GDF) \<and>
            region_matches img (0x10000 + XGD3)"
    using assms by (simp_all add: container_at_def c)
  from b show ?thesis
  proof
    assume a: "base = GDF \<and> region_matches img (0x10000 + GDF)"
    let ?f2 = "snd (read 20 (seek (0x20 * 0x800 + GDF) (snd (read 20 (seek (0x20 * 0x800) ?f)))))"
    have m2: "region_matches (content ?f2) (0x10000 + GDF)"
      using a by (simp add: stream_simps c)
    have l2: "GDF + 0x1001C \<le> length (content ?f2)"
      using a l by (simp add: stream_simps c)
    show ?thesis
      using read_layout_ok(1) [OF m2 l2] a check_iso_probe [OF n]
      by (simp add: stream_simps c)
  next
    assume a: "base = XGD3 \<and> \<not> region_matches img (0x10000 + GDF) \<and>
            region_matches img (0x10000 + XGD3)"
    let ?f3 = "snd (read 20 (seek (0x20 * 0x800 + XGD3)
        (snd (read 20 (seek (0x20 * 0x800 + GDF) (snd (read 20 (seek (0x20 * 0x800) ?f))))))))"
    have m3: "region_matches (content ?f3) (0x10000 + XGD3)"
      using a by (simp add: stream_simps c)
    have l3: "XGD3 + 0x1001C \<le> length (content ?f3)"
      using a l by (simp add: stream_simps c)
    show ?thesis
      using read_layout_ok(1) [OF m3 l3] a check_iso_probe [OF n]
      by (simp add: stream_simps c)
  qed
qed

lemma extract_first_entry:
  assumes "content f = img" and "first_entry (root_region img lay) (root_dir_size lay) = Some i"
    and "8 \<le> i"
  shows "fst (extract_defaultxex f lay) =
           Inr (open_stream (entry_data img lay (entry_fields (root_region img lay) i)))"
proof -
  let ?rb = "root_region img lay"
  obtain ds sz where e: "entry_fields ?rb i = (ds, sz)" by (cases "entry_fields ?rb i")
  have c: "content (open_stream ?rb) = ?rb" by (simp add: open_stream_def)
  have f: "find (entry_at ?rb) [0..<0 + (root_dir_size lay - 12)] = Some i"
    using assms(2) by (simp add: first_entry_def)
  have "fst (scan_root 0 (root_dir_size lay - 12) (open_stream ?rb)) = Inr (ds, sz)"
    using assms(3) by (simp only: scan_root_find [OF c] f) (simp add: e)
  then have s: "fst (scan_root 0 (root_dir_size lay - 12)
             (open_stream (take (root_dir_size lay)
                (drop (root_dir_sector lay * sector_size lay + root_offset lay) (content f))))) =
           Inr (ds, sz)"
    by (simp add: root_region_def assms(1))
  show ?thesis
    using extract_defaultxex_found(1) [OF s] by (simp add: entry_data_def e assms(1))
qed

lemma extract_valid_executable:
  assumes "passes_validation length xex" and "length xex \<le> g xex"
    and "last_match (table_records xex) = Some a" and "a + 20 \<le> length xex"
  shows "fst (extract_xex_info g (open_stream xex)) = Inr (execution_info_at xex a)"
proof -
  have b: "24 + 8 * entry_count_of xex \<le> length xex"
    using assms(1) by (rule validation_bounds_table)
  have v: "passes_validation g xex"
    using assms(1,2) by (rule passes_validation_size)
  show ?thesis
    by (simp add: extract_xex_info_valid [OF v b] assms(3)
        decode_execution_info_within [OF assms(4)] execution_info_at_def hex_id_upper)
qed

lemma dir_fields:
  assumes "n < 2 ^ 32"
  shows "entry_fields (([0, 0, 0, 0, 0x22, 0, 0, 0] @ le32 n @
      [0x80, 0x0B, 0x64, 0x65, 0x66, 0x61, 0x75, 0x6C, 0x74, 0x2E, 0x78, 0x65, 0x78]) @
     replicate 0x7E7 0) 12 = (0x22, n)"
  using le_nat_le32 [OF assms] by (simp add: entry_fields_def length_le32)

lemma mk_iso_valid:
  assumes "base = GDF \<or> base = XGD3" and "length data \<le> 0x100000" and "n < 2 ^ 32"
    and "passes_validation length (take n data)"
    and "last_match (table_records (take n data)) = Some a"
    and "a + 20 \<le> length (take n data)"
  shows "valid_image (mk_iso base n data) base 12 (take n data) a"
proof -
  let ?img = "mk_iso base n data"
  have c: "container_at ?img base"
    using assms(1,2)
    by (auto simp: container_at_def mk_iso_regions mk_iso_xgd3_no_gdf mk_iso_length)
  have r: "root_region ?img (layout_at ?img base) =
     ([0, 0, 0, 0, 0x22, 0, 0, 0] @ le32 n @
      [0x80, 0x0B, 0x64, 0x65, 0x66, 0x61, 0x75, 0x6C, 0x74, 0x2E, 0x78, 0x65, 0x78]) @
     replicate 0x7E7 0"
    using mk_iso_dir [of base n data] by (simp add: root_region_def mk_iso_layout)
  have rs: "root_dir_size (layout_at ?img base) = 0x800"
    by (simp add: mk_iso_layout)
  have f: "first_entry (root_region ?img (layout_at ?img base)) (root_dir_size (layout_at ?img base)) =
      Some 12"
    by (simp only: r rs first_entry_def dir_first)
  have d: "entry_data ?img (layout_at ?img base)
             (entry_fields (root_region ?img (layout_at ?img base)) 12) = take n data"
    unfolding r dir_fields [OF assms(3)]
    using mk_iso_data [of base n data] by (simp add: entry_data_def mk_iso_layout)
  show ?thesis
    using assms(4,5,6) by (simp add: valid_image_def c f d)
qed

text \<open>
  Claim C5, as the code has it. For every valid disc image, the pipeline returns
  exactly the values the image holds at the places the format gives them: the layout
  at the base offset found, and the execution info at the value of the last record
  with the identifier 0x00040006, its media id and title id as uppercase hexadecimal,
  its two versions, and its four single bytes as they are written; \<^verbatim>\<open>game_name\<close> is
  the entry of the lookup table under the title id, or \<^verbatim>\<open>Unknown\<close>. Valid includes that
  the executable extends at least to its code offset; the size that
  \<^verbatim>\<open>sys.getsizeof\<close> reports for a buffer is taken to be at least the length of its
  data. In particular, an image built by \<open>mk_iso\<close> at either base offset around an
  executable built by \<open>mk_xex\<close> from known field values gives these values back. And for
  every buffer of the scenario (magic \<^verbatim>\<open>XEX2\<close>, code offset 0x100, certificate offset
  0x20, the one entry (0x00040006, 0x40), the title id bytes 4D 53 07 D1 at 0x4C) that
  extends to its code offset, the parser returns the title id \<^verbatim>\<open>4D5307D1\<close> and no
  error.
\<close>

theorem pipeline_roundtrip:
  "(valid_image img base i xex a \<and> length xex \<le> g xex \<longrightarrow>
      parse L g enc name (Some img) =
        Inr (Some \<lparr>layout = layout_at img base, info = execution_info_at xex a,
                   game_name = (case L (hex_upper (take 4 (drop (a + 12) xex))) of
                                  None \<Rightarrow> ''Unknown'' | Some t \<Rightarrow> t)\<rparr>)) \<and>
   (length mid = 4 \<and> length tid = 4 \<and> ver < 2 ^ 32 \<and> bver < 2 ^ 32 \<and>
    (b = GDF \<or> b = XGD3) \<and>
    length (mk_xex mid ver bver tid plat etype dnum dcnt) \<le>
      g (mk_xex mid ver bver tid plat etype dnum dcnt) \<longrightarrow>
      parse L g enc name (Some (mk_iso b 0x100 (mk_xex mid ver bver tid plat etype dnum dcnt))) =
        Inr (Some \<lparr>layout =
                \<lparr>sector_size = 0x800, root_offset = b, iso_identifier = MAGIC,
                 root_dir_sector = 0x21, root_dir_size = 0x800,
                 image_size = b + 0x11100, volume_size = 0x11100,
                 volume_sectors = 0x11100 / 0x800\<rparr>,
              info =
                \<lparr>media_id = hex_upper mid, version = ver, base_version = bver,
                 title_id = hex_upper tid, platform = unat plat, executable_type = unat etype,
                 disc_number = unat dnum, disc_count = unat dcnt\<rparr>,
              game_name = (case L (hex_upper tid) of None \<Rightarrow> ''Unknown'' | Some t \<Rightarrow> t)\<rparr>)) \<and>
   (decode_ascii_ignore (take 4 buf) = ''XEX2'' \<and> code_offset_of buf = 0x100 \<and>
    cert_offset_of buf = 0x20 \<and> table_records buf = [(0x00040006, 0x40)] \<and>
    0x100 \<le> length buf \<and> length buf \<le> g buf \<and>
    take 4 (drop 0x4C buf) = [0x4D, 0x53, 0x07, 0xD1] \<longrightarrow>
      fst (extract_xex_info g (open_stream buf)) =
        Inr \<lparr>media_id = hex_upper (take 4 (drop 0x40 buf)), version = u32be_at buf 0x44,
             base_version = u32be_at buf 0x48, title_id = ''4D5307D1'',
             platform = unat (buf ! 0x50), executable_type = unat (buf ! 0x51),
             disc_number = unat (buf ! 0x52), disc_count = unat (buf ! 0x53)\<rparr>)"
proof (intro conjI impI)
  let ?lay = "layout_at img base"
  let ?rb = "root_region img ?lay"
  assume h: "valid_image img base i xex a \<and> length xex \<le> g xex"
  then have c: "container_at img base"
    and f: "first_entry ?rb (root_dir_size ?lay) = Some i" and i: "8 \<le> i"
    and x: "xex = entry_data img ?lay (entry_fields ?rb i)"
    and v: "passes_validation length xex"
    and m: "last_match (table_records xex) = Some a" and d: "a + 20 \<le> length xex"
    and s: "length xex \<le> g xex"
    unfolding valid_image_def by blast+
  have 1: "fst (check_iso (open_stream img)) = Inr ?lay"
    using c by (rule check_iso_container)
  have 2: "content (snd (check_iso (open_stream img))) = img"
    by (simp add: content_check_iso open_stream_def)
  have 3: "fst (extract_defaultxex (snd (check_iso (open_stream img))) ?lay) = Inr (open_stream xex)"
    using extract_first_entry [OF 2 f i] x by simp
  have 4: "fst (extract_xex_info g (open_stream xex)) = Inr (execution_info_at xex a)"
    using v s m d by (rule extract_valid_executable)
  show "parse L g enc name (Some img) =
        Inr (Some \<lparr>layout = layout_at img base, info = execution_info_at xex a,
                   game_name = (case L (hex_upper (take 4 (drop (a + 12) xex))) of
                                  None \<Rightarrow> ''Unknown'' | Some t \<Rightarrow> t)\<rparr>)"
    by (simp add: parse_cases 1 3 4) (simp add: execution_info_at_def)
next
  let ?xex = "mk_xex mid ver bver tid plat etype dnum dcnt"
  assume a: "length mid = 4 \<and> length tid = 4 \<and> ver < 2 ^ 32 \<and> bver < 2 ^ 32 \<and>
    (b = GDF \<or> b = XGD3) \<and> length ?xex \<le> g ?xex"
  then have l: "length ?xex = 256" by (simp add: mk_xex_length)
  have b: "b = GDF \<or> b = XGD3" using a by simp
  have d: "length ?xex \<le> 0x100000" by (simp add: l)
  have n: "(0x100::nat) < 2 ^ 32" by simp
  have s: "0x100 \<le> g ?xex" using a l by simp
  have i: "fst (extract_xex_info g (open_stream ?xex)) =
    Inr \<lparr>media_id = hex_id mid, version = ver, base_version = bver, title_id = hex_id tid,
         platform = unat plat, executable_type = unat etype,
         disc_number = unat dnum, disc_count = unat dcnt\<rparr>"
    using a s by (intro mk_xex_info) simp_all
  have t: "take 0x100 ?xex = ?xex" by (simp add: l)
  show "parse L g enc name (Some (mk_iso b 0x100 ?xex)) =
        Inr (Some \<lparr>layout =
                \<lparr>sector_size = 0x800, root_offset = b, iso_identifier = MAGIC,
                 root_dir_sector = 0x21, root_dir_size = 0x800,
                 image_size = b + 0x11100, volume_size = 0x11100,
                 volume_sectors = 0x11100 / 0x800\<rparr>,
              info =
                \<lparr>media_id = hex_upper mid, version = ver, base_version = bver,
                 title_id = hex_upper tid, platform = unat plat, executable_type = unat etype,
                 disc_number = unat dnum, disc_count = unat dcnt\<rparr>,
              game_name = (case L (hex_upper tid) of None \<Rightarrow> ''Unknown'' | Some t \<Rightarrow> t)\<rparr>)"
    by (simp add: parse_mk_iso [OF b d n] t i mk_iso_layout l hex_id_upper)
next
  assume a: "decode_ascii_ignore (take 4 buf) = ''XEX2'' \<and> code_offset_of buf = 0x100 \<and>
    cert_offset_of buf = 0x20 \<and> table_records buf = [(0x00040006, 0x40)] \<and>
    0x100 \<le> length buf \<and> length buf \<le> g buf \<and>
    take 4 (drop 0x4C buf) = [0x4D, 0x53, 0x07, 0xD1]"
  have "length (table_records buf) = entry_count_of buf"
    by (simp add: table_records_def records_from_def)
  then have n: "entry_count_of buf = 1" using a by simp
  have v: "passes_validation g buf"
    using a n by (simp add: passes_validation_def)
  have "fst (extract_xex_info g (open_stream buf)) =
    Inr \<lparr>media_id = hex_id (take 4 (drop 0x40 buf)), version = u32be_at buf 0x44,
         base_version = u32be_at buf 0x48, title_id = hex_id (take 4 (drop 0x4C buf)),
         platform = unat (buf ! 0x50), executable_type = unat (buf ! 0x51),
         disc_number = unat (buf ! 0x52), disc_count = unat (buf ! 0x53)\<rparr>"
    using v a by (intro scenario_info) simp_all
  then show "fst (extract_xex_info g (open_stream buf)) =
        Inr \<lparr>media_id = hex_upper (take 4 (drop 0x40 buf)), version = u32be_at buf 0x44,
             base_version = u32be_at buf 0x48, title_id = ''4D5307D1'',
             platform = unat (buf ! 0x50), executable_type = unat (buf ! 0x51),
             disc_number = unat (buf ! 0x52), disc_count = unat (buf ! 0x53)\<rparr>"
    using a by (simp add: title_4D5307D1 hex_id_upper [symmetric])
qed

lemma hex_upper_media: "hex_upper [0xAA, 0xBB, 0xCC, 0xDD] = ''AABBCCDD''"
  by (simp add: hex_upper_def HEX_def)

lemma hex_upper_title: "hex_upper [0x4D, 0x53, 0x07, 0xD1] = ''4D5307D1''"
  by (simp add: hex_upper_def HEX_def)

lemma w5_xex_facts:
  "length w5_xex = 256"
  "decode_ascii_ignore (take 4 w5_xex) = ''XEX2''" "code_offset_of w5_xex = 0x100"
  "cert_offset_of w5_xex = 0x20" "entry_count_of w5_xex = 1"
  "table_records w5_xex = [(0x00040006, 0x40)]"
  "take 4 (drop 0x4C w5_xex) = [0x4D, 0x53, 0x07, 0xD1]"
  "hex_upper (take 4 (drop 0x40 w5_xex)) = ''AABBCCDD''"
  "u32be_at w5_xex 0x44 = 0x01020304" "u32be_at w5_xex 0x48 = 0x05060708"
  "unat (w5_xex ! 0x50) = 2" "unat (w5_xex ! 0x51) = 1"
  "unat (w5_xex ! 0x52) = 1" "unat (w5_xex ! 0x53) = 2"
  by (simp_all add: w5_xex_def mk_xex_bytes be32_def field_defs decode_XEX2 hex_upper_media
      table_records_def records_from_def)

lemma w9_two_matches_facts:
  "length w9_two_matches = 256"
  "passes_validation length w9_two_matches"
  "table_records w9_two_matches = [(0x00040006, 0x60), (0x00040006, 0x40), (0x00030000, 0x80)]"
  "hex_upper (take 4 (drop 0x40 w9_two_matches)) = ''AABBCCDD''"
  "hex_upper (take 4 (drop 0x4C w9_two_matches)) = ''4D5307D1''"
  "u32be_at w9_two_matches 0x44 = 0x01020304" "u32be_at w9_two_matches 0x48 = 0x05060708"
  "unat (w9_two_matches ! 0x50) = 2" "unat (w9_two_matches ! 0x51) = 1"
  "unat (w9_two_matches ! 0x52) = 1" "unat (w9_two_matches ! 0x53) = 2"
  by (simp_all add: w9_two_matches_bytes passes_validation_def field_defs decode_XEX2
      table_records_def records_from_def upt_3 hex_upper_def HEX_def)

text \<open>
  The executable with media id AABBCCDD and title id 4D5307D1 in an XGD3 image, with a
  lookup table that knows the title; an executable whose table has three records, the
  first two with the wanted identifier, in a GDF image, with an empty lookup table: the
  execution info at 0x40, the value of the second record, is returned; the first
  executable in a GDF image; and the first executable as the buffer of the scenario.
\<close>

theorem pipeline_roundtrip_witness:
  "valid_image (mk_iso XGD3 0x100 w5_xex) XGD3 12 w5_xex 0x40 \<and>
   length w5_xex = 256 \<and> getsizeof_cpython w5_xex = 370 \<and>
   parse w5_lookup getsizeof_cpython ascii_stdout w8_name (Some (mk_iso XGD3 0x100 w5_xex)) =
     Inr (Some \<lparr>layout =
             \<lparr>sector_size = 0x800, root_offset = 0x2080000, iso_identifier = MAGIC,
              root_dir_sector = 0x21, root_dir_size = 0x800,
              image_size = 0x2091100, volume_size = 0x11100, volume_sectors = 273 / 8\<rparr>,
           info =
             \<lparr>media_id = ''AABBCCDD'', version = 0x01020304, base_version = 0x05060708,
              title_id = ''4D5307D1'', platform = 2, executable_type = 1,
              disc_number = 1, disc_count = 2\<rparr>,
           game_name = ''Halo 3''\<rparr>) \<and>
   valid_image w5_multi GDF 12 w9_two_matches 0x40 \<and>
   table_records w9_two_matches = [(0x00040006, 0x60), (0x00040006, 0x40), (0x00030000, 0x80)] \<and>
   parse Map.empty getsizeof_cpython ascii_stdout w8_name (Some w5_multi) =
     Inr (Some \<lparr>layout =
             \<lparr>sector_size = 0x800, root_offset = 0xFD90000, iso_identifier = MAGIC,
              root_dir_sector = 0x21, root_dir_size = 0x800,
              image_size = 0xFDA1100, volume_size = 0x11100, volume_sectors = 273 / 8\<rparr>,
           info =
             \<lparr>media_id = ''AABBCCDD'', version = 0x01020304, base_version = 0x05060708,
              title_id = ''4D5307D1'', platform = 2, executable_type = 1,
              disc_number = 1, disc_count = 2\<rparr>,
           game_name = ''Unknown''\<rparr>) \<and>
   parse Map.empty getsizeof_cpython ascii_stdout w8_name (Some (mk_iso GDF 0x100 w5_xex)) =
     Inr (Some \<lparr>layout =
             \<lparr>sector_size = 0x800, root_offset = 0xFD90000, iso_identifier = MAGIC,
              root_dir_sector = 0x21, root_dir_size = 0x800,
              image_size = 0xFDA1100, volume_size = 0x11100, volume_sectors = 273 / 8\<rparr>,
           info =
             \<lparr>media_id = ''AABBCCDD'', version = 0x01020304, base_version = 0x05060708,
              title_id = ''4D5307D1'', platform = 2, executable_type = 1,
              disc_number = 1, disc_count = 2\<rparr>,
           game_name = ''Unknown''\<rparr>) \<and>
   decode_ascii_ignore (take 4 w5_xex) = ''XEX2'' \<and> code_offset_of w5_xex = 0x100 \<and>
   cert_offset_of w5_xex = 0x20 \<and> table_records w5_xex = [(0x00040006, 0x40)] \<and>
   take 4 (drop 0x4C w5_xex) = [0x4D, 0x53, 0x07, 0xD1] \<and>
   fst (extract_xex_info getsizeof_cpython (open_stream w5_xex)) =
     Inr \<lparr>media_id = ''AABBCCDD'', version = 0x01020304, base_version = 0x05060708,
          title_id = ''4D5307D1'', platform = 2, executable_type = 1,
          disc_number = 1, disc_count = 2\<rparr>"
proof -
  let ?mid = "[0xAA, 0xBB, 0xCC, 0xDD] :: byte list"
  let ?tid = "[0x4D, 0x53, 0x07, 0xD1] :: byte list"
  have x: "w5_xex = mk_xex ?mid 0x01020304 0x05060708 ?tid 2 1 1 2"
    by (simp add: w5_xex_def)
  have g: "getsizeof_cpython w5_xex = 370" "getsizeof_cpython w9_two_matches = 370"
    using w5_xex_facts(1) w9_two_matches_facts(1) by (auto simp: getsizeof_cpython_def)
  have v: "passes_validation length w5_xex"
    by (simp add: passes_validation_def w5_xex_facts)
  have m: "last_match (table_records w5_xex) = Some 0x40"
    "last_match (table_records w9_two_matches) = Some 0x40"
    by (simp_all add: w5_xex_facts w9_two_matches_facts last_match_def is_execution_info_def)
  have t: "take 0x100 w5_xex = w5_xex" "take 0x100 w9_two_matches = w9_two_matches"
    by (simp_all add: w5_xex_facts w9_two_matches_facts)
  have v5: "valid_image (mk_iso XGD3 0x100 w5_xex) XGD3 12 (take 0x100 w5_xex) 0x40"
    by (rule mk_iso_valid) (simp_all add: t v m w5_xex_facts(1))
  have v9: "valid_image (mk_iso GDF 0x100 w9_two_matches) GDF 12 (take 0x100 w9_two_matches) 0x40"
    by (rule mk_iso_valid) (simp_all add: t m w9_two_matches_facts(1,2))
  have k: "w5_lookup ''4D5307D1'' = Some ''Halo 3''" by (simp add: w5_lookup_def)
  have l: "layout_at (mk_iso XGD3 0x100 w5_xex) XGD3 =
      \<lparr>sector_size = 0x800, root_offset = 0x2080000, iso_identifier = MAGIC,
       root_dir_sector = 0x21, root_dir_size = 0x800,
       image_size = 0x2091100, volume_size = 0x11100, volume_sectors = 273 / 8\<rparr>"
    "layout_at (mk_iso GDF 0x100 w9_two_matches) GDF =
      \<lparr>sector_size = 0x800, root_offset = 0xFD90000, iso_identifier = MAGIC,
       root_dir_sector = 0x21, root_dir_size = 0x800,
       image_size = 0xFDA1100, volume_size = 0x11100, volume_sectors = 273 / 8\<rparr>"
    by (simp_all add: mk_iso_layout w5_xex_facts w9_two_matches_facts)
      (simp_all add: GDF_def XGD3_def)
  have e: "execution_info_at w5_xex 0x40 =
      \<lparr>media_id = ''AABBCCDD'', version = 0x01020304, base_version = 0x05060708,
       title_id = ''4D5307D1'', platform = 2, executable_type = 1,
       disc_number = 1, disc_count = 2\<rparr>"
    "execution_info_at w9_two_matches 0x40 =
      \<lparr>media_id = ''AABBCCDD'', version = 0x01020304, base_version = 0x05060708,
       title_id = ''4D5307D1'', platform = 2, executable_type = 1,
       disc_number = 1, disc_count = 2\<rparr>"
    by (simp_all add: execution_info_at_def w5_xex_facts w9_two_matches_facts hex_upper_title)
  have h: "hex_upper (take 4 (drop (0x40 + 12) w5_xex)) = ''4D5307D1''"
    "hex_upper (take 4 (drop (0x40 + 12) w9_two_matches)) = ''4D5307D1''"
    by (simp_all add: w5_xex_facts w9_two_matches_facts hex_upper_title)
  note th = pipeline_roundtrip [where g = getsizeof_cpython and enc = ascii_stdout
      and name = w8_name and buf = w5_xex and mid = ?mid and tid = ?tid and ver = "0x01020304"
      and bver = "0x05060708" and plat = 2 and etype = 1 and dnum = 1 and dcnt = 2 and b = GDF,
      folded x]
  show ?thesis
    using th [where img = "mk_iso XGD3 0x100 w5_xex" and base = XGD3 and i = 12 and xex = w5_xex
        and a = "0x40" and L = w5_lookup]
      th [where img = w5_multi and base = GDF and i = 12 and xex = w9_two_matches
        and a = "0x40" and L = Map.empty]
      v5 v9
    by (simp add: t g l e h k w5_xex_facts w9_two_matches_facts(1,3) w5_multi_def
        hex_upper_media hex_upper_title) (simp add: GDF_def)
qed

lemma c5_minimal_bytes:
  "c5_minimal =
     [88, 69, 88, 50, 0, 0, 0, 0, 0, 0, 1, 0, 0, 0, 0, 0,
      0, 0, 0, 32, 0, 0, 0, 1, 0, 4, 0, 6, 0, 0, 0, 64,
      0, 0, 0, 0, 0, 0, 0, 0, 0, 0, 0, 0, 0, 0, 0, 0,
      0, 0, 0, 0, 0, 0, 0, 0, 0, 0, 0, 0, 0, 0, 0, 0,
      170, 187, 204, 221, 1, 2, 3, 4, 5, 6, 7, 8, 77, 83, 7, 209,
      2, 1, 1, 2]"
  by (simp add: c5_minimal_def xex_header_def encode_XEX2 info_a_def execution_info_bytes_def pad32)
    (simp add: be32_def)

text \<open>
  Claim C5 as stated fails. The buffer of the scenario with nothing after the
  execution info has 84 bytes, less than its code offset 0x100. The parser returns
  \<^verbatim>\<open>False\<close> with the message of the code offset beyond the size, and no title id:
  the size of the buffer object is 198, and the check refuses the buffer as well
  when the size is the length of the data.
\<close>

theorem pipeline_roundtrip_counterexample:
  "length c5_minimal = 0x54 \<and> decode_ascii_ignore (take 4 c5_minimal) = ''XEX2'' \<and>
   code_offset_of c5_minimal = 0x100 \<and> cert_offset_of c5_minimal = 0x20 \<and>
   entry_count_of c5_minimal = 1 \<and> table_records c5_minimal = [(0x00040006, 0x40)] \<and>
   take 4 (drop 0x4C c5_minimal) = [0x4D, 0x53, 0x07, 0xD1] \<and>
   getsizeof_cpython c5_minimal = 198 \<and>
   fst (extract_xex_info getsizeof_cpython (open_stream c5_minimal)) = Inl CodeOffsetBeyondSize \<and>
   fst (extract_xex_info length (open_stream c5_minimal)) = Inl CodeOffsetBeyondSize"
  by (simp add: extract_xex_info_header c5_minimal_bytes decode_XEX2 field_defs
      getsizeof_cpython_def table_records_def records_from_def)



end
